theory Spec2Isabelle
  imports Main
begin

section \<open>Data model\<close>

text \<open>
  The grid is \<^verbatim>\<open>string[][]\<close>: a list of rows, each a list of cells, each cell a string
  (the fixtures use the empty string and a blank for cells that are not part of the path).
  \<^verbatim>\<open>Position\<close> and \<^verbatim>\<open>Direction\<close> are both objects with the integer fields \<^verbatim>\<open>row\<close> and
  \<^verbatim>\<open>col\<close>; one record type serves for both.
\<close>

type_synonym grid = "string list list"

record Position =
  row :: int
  col :: int

type_synonym Direction = Position

text \<open>
  The source throws \<^verbatim>\<open>new Error(message)\<close>. A read \<^verbatim>\<open>grid[r][c]\<close> outside the grid (a
  \<^verbatim>\<open>TypeError\<close> for an absent row, the value \<^verbatim>\<open>undefined\<close> for an absent column in
  JavaScript) is the separate value \<open>AbsentCell\<close>, so that a theorem can say that it never
  arises.
\<close>

datatype error = Error string | AbsentCell

record result =
  letters :: string
  path :: string

text \<open>Modelled from the spec: the constants of \<^verbatim>\<open>KEY_CHARACTERS\<close> (the file \<^verbatim>\<open>enums.ts\<close> is
  not among the sources): the start marker, the end marker and the three path-drawing
  characters, fixed single-character literals.\<close>

definition STARTING_CHAR :: string where
  "STARTING_CHAR = ''@''"

definition ENDING_CHAR :: string where
  "ENDING_CHAR = ''x''"

definition MINUS_CHAR :: string where
  "MINUS_CHAR = ''-''"

definition VERTICAL_CHAR :: string where
  "VERTICAL_CHAR = ''|''"

definition CHANGE_DIRECTION_CHAR :: string where
  "CHANGE_DIRECTION_CHAR = ''+''"

section \<open>Grid primitives (utils.ts)\<close>

definition DIRECTIONS :: "Direction list" where
  "DIRECTIONS =
     [\<lparr>row = -1, col = 0\<rparr>, \<lparr>row = 1, col = 0\<rparr>, \<lparr>row = 0, col = -1\<rparr>, \<lparr>row = 0, col = 1\<rparr>]"

definition filterDirections :: "Direction \<Rightarrow> Direction list" where
  "filterDirections currentDirection =
     filter (\<lambda>direction. if row currentDirection = 0 then row direction \<noteq> 0
                          else row direction = 0) DIRECTIONS"

text \<open>The two nested \<^verbatim>\<open>for\<close> loops of \<^verbatim>\<open>findPosition\<close>, with their index counters.\<close>

fun findInRow :: "string list \<Rightarrow> string \<Rightarrow> int \<Rightarrow> int option" where
  "findInRow [] ch c = None"
| "findInRow (cell # cells) ch c = (if cell = ch then Some c else findInRow cells ch (c + 1))"

fun findInRows :: "grid \<Rightarrow> string \<Rightarrow> int \<Rightarrow> Position option" where
  "findInRows [] ch r = None"
| "findInRows (cells # rows) ch r =
     (case findInRow cells ch 0 of
        Some c \<Rightarrow> Some \<lparr>row = r, col = c\<rparr>
      | None \<Rightarrow> findInRows rows ch (r + 1))"

definition findPosition :: "grid \<Rightarrow> string \<Rightarrow> Position option" where
  "findPosition g ch = findInRows g ch 0"

definition isWithinBounds :: "grid \<Rightarrow> Position \<Rightarrow> bool" where
  "isWithinBounds g position \<longleftrightarrow>
     row position \<ge> 0 \<and> row position < int (length g) \<and> col position \<ge> 0 \<and>
     col position < int (length (g ! nat (row position)))"

text \<open>The read \<^verbatim>\<open>grid[position.row][position.col]\<close>, \<open>None\<close> outside the grid.\<close>

definition cellAt :: "grid \<Rightarrow> Position \<Rightarrow> string option" where
  "cellAt g position =
     (if 0 \<le> row position \<and> row position < int (length g) then
        (let cells = g ! nat (row position) in
         if 0 \<le> col position \<and> col position < int (length cells)
         then Some (cells ! nat (col position)) else None)
      else None)"

definition isPathCharacter :: "string \<Rightarrow> bool" where
  "isPathCharacter ch \<longleftrightarrow>
     ch = MINUS_CHAR \<or> ch = VERTICAL_CHAR \<or> ch = CHANGE_DIRECTION_CHAR"

text \<open>The character class \<^verbatim>\<open>[A-Z]\<close>, and the two regular-expression tests of the source:
  \<^verbatim>\<open>/[A-Z]/.test(s)\<close> and \<^verbatim>\<open>/[A-Zx]/.test(s)\<close> hold when some character of \<open>s\<close> is in the class.\<close>

definition isUpper :: "char \<Rightarrow> bool" where
  "isUpper c \<longleftrightarrow> (65::nat) \<le> of_char c \<and> of_char c \<le> (90::nat)"

definition testAZ :: "string \<Rightarrow> bool" where
  "testAZ s = list_ex isUpper s"

definition testAZx :: "string \<Rightarrow> bool" where
  "testAZx s = list_ex (\<lambda>c. isUpper c \<or> c = CHR ''x'') s"

definition move :: "Position \<Rightarrow> Direction \<Rightarrow> Position" where
  "move position direction =
     \<lparr>row = row position + row direction, col = col position + col direction\<rparr>"

text \<open>The counting loop of \<^verbatim>\<open>haveOneValidDirection\<close>; \<open>n\<close> is \<^verbatim>\<open>validDirections\<close>.\<close>

fun countValidDirections :: "grid \<Rightarrow> Position \<Rightarrow> Direction list \<Rightarrow> nat \<Rightarrow> error + nat" where
  "countValidDirections g position [] n = Inr n"
| "countValidDirections g position (direction # ds) n =
     (let newPosition = \<lparr>row = row position + row direction,
                          col = col position + col direction\<rparr> in
      if isWithinBounds g newPosition then
        (case cellAt g newPosition of
           None \<Rightarrow> Inl AbsentCell
         | Some nextChar \<Rightarrow>
             if isPathCharacter nextChar \<or> testAZx nextChar
             then countValidDirections g position ds (n + 1)
             else countValidDirections g position ds n)
      else countValidDirections g position ds n)"

definition haveOneValidDirection :: "grid \<Rightarrow> Position \<Rightarrow> Direction \<Rightarrow> error + bool" where
  "haveOneValidDirection g position currentDirection =
     (case cellAt g position of
        None \<Rightarrow> Inl AbsentCell
      | Some ch \<Rightarrow>
          if ch \<noteq> CHANGE_DIRECTION_CHAR then Inr False
          else (case countValidDirections g position (filterDirections currentDirection) 0 of
                  Inl e \<Rightarrow> Inl e
                | Inr validDirections \<Rightarrow>
                    if validDirections > 1
                    then Inl (Error ''The map must have only one valid direction.'')
                    else Inr True))"

definition isLocationAlreadyUsed :: "Position list \<Rightarrow> Position \<Rightarrow> bool" where
  "isLocationAlreadyUsed location currentPosition =
     list_ex (\<lambda>v. col v = col currentPosition \<and> row v = row currentPosition) location"

text \<open>\<^verbatim>\<open>hasMultipleOccurrences\<close>: the set \<^verbatim>\<open>occurrences\<close> is threaded through both loops;
  \<open>Inl ()\<close> is the early \<^verbatim>\<open>return true\<close>.\<close>

fun occurrencesInRow :: "string list \<Rightarrow> string \<Rightarrow> string set \<Rightarrow> unit + string set" where
  "occurrencesInRow [] target occurrences = Inr occurrences"
| "occurrencesInRow (cell # cells) target occurrences =
     (if cell = target then
        (if target \<in> occurrences then Inl ()
         else occurrencesInRow cells target (insert target occurrences))
      else occurrencesInRow cells target occurrences)"

fun occurrencesInRows :: "grid \<Rightarrow> string \<Rightarrow> string set \<Rightarrow> bool" where
  "occurrencesInRows [] target occurrences = False"
| "occurrencesInRows (cells # rows) target occurrences =
     (case occurrencesInRow cells target occurrences of
        Inl _ \<Rightarrow> True
      | Inr occurrences' \<Rightarrow> occurrencesInRows rows target occurrences')"

definition hasMultipleOccurrences :: "grid \<Rightarrow> string \<Rightarrow> bool" where
  "hasMultipleOccurrences g target = occurrencesInRows g target {}"

section \<open>The walker (index.ts)\<close>

text \<open>The loop of \<^verbatim>\<open>findInitialDirection\<close>; \<open>validDirections\<close> is the array it pushes to.\<close>

fun collectValidDirections ::
  "grid \<Rightarrow> Position \<Rightarrow> Direction list \<Rightarrow> Direction list \<Rightarrow> error + Direction list" where
  "collectValidDirections g start [] validDirections = Inr validDirections"
| "collectValidDirections g start (dir # ds) validDirections =
     (let potentialPosition = move start dir in
      if isWithinBounds g potentialPosition then
        (case cellAt g potentialPosition of
           None \<Rightarrow> Inl AbsentCell
         | Some nextChar \<Rightarrow>
             if isPathCharacter nextChar \<or> testAZx nextChar
             then collectValidDirections g start ds (validDirections @ [dir])
             else collectValidDirections g start ds validDirections)
      else collectValidDirections g start ds validDirections)"

definition findInitialDirection :: "grid \<Rightarrow> Position \<Rightarrow> error + Direction option" where
  "findInitialDirection g start =
     (case collectValidDirections g start DIRECTIONS [] of
        Inl e \<Rightarrow> Inl e
      | Inr validDirections \<Rightarrow>
          if length validDirections = 1 then Inr (Some (validDirections ! 0))
          else Inl (Error ''The map must contain exactly one starting path.''))"

text \<open>The \<^verbatim>\<open>for\<close> loop over \<^verbatim>\<open>filterDirections(currentDirection)\<close> in \<^verbatim>\<open>findNextPosition\<close>; the
  source has the same loop twice, at a turn and at a letter.\<close>

fun tryDirections ::
  "grid \<Rightarrow> Position \<Rightarrow> Direction \<Rightarrow> Direction list \<Rightarrow> error + (Position \<times> Direction) option" where
  "tryDirections g currentPosition currentDirection [] = Inr None"
| "tryDirections g currentPosition currentDirection (dir # ds) =
     (let potentialPosition = move currentPosition dir in
      if isWithinBounds g potentialPosition then
        (case cellAt g potentialPosition of
           None \<Rightarrow> Inl AbsentCell
         | Some nextChar \<Rightarrow>
             if (row dir \<noteq> - row currentDirection \<or> col dir \<noteq> - col currentDirection) \<and>
                (isPathCharacter nextChar \<or> testAZx nextChar)
             then Inr (Some (potentialPosition, dir))
             else tryDirections g currentPosition currentDirection ds)
      else tryDirections g currentPosition currentDirection ds)"

definition findNextPosition ::
  "grid \<Rightarrow> Position \<Rightarrow> Direction \<Rightarrow> error + (Position \<times> Direction) option" where
  "findNextPosition g currentPosition currentDirection =
     (case cellAt g currentPosition of
        None \<Rightarrow> Inl AbsentCell
      | Some currentChar \<Rightarrow>
          (case (if currentChar = CHANGE_DIRECTION_CHAR
                 then haveOneValidDirection g currentPosition currentDirection
                 else Inr False) of
             Inl e \<Rightarrow> Inl e
           | Inr True \<Rightarrow>
               tryDirections g currentPosition currentDirection
                 (filterDirections currentDirection)
           | Inr False \<Rightarrow>
               (let potentialPosition = move currentPosition currentDirection in
                if isWithinBounds g potentialPosition then
                  (case cellAt g potentialPosition of
                     None \<Rightarrow> Inl AbsentCell
                   | Some nextChar \<Rightarrow>
                       if isPathCharacter nextChar \<or> testAZx nextChar
                       then Inr (Some (potentialPosition, currentDirection))
                       else Inr None)
                else if testAZ currentChar then
                  tryDirections g currentPosition currentDirection
                    (filterDirections currentDirection)
                else Inr None)))"

text \<open>The local variables of \<^verbatim>\<open>collectLettersAndPath\<close> that the \<^verbatim>\<open>while\<close> loop changes.\<close>

record walker =
  currentPosition :: Position
  direction :: Direction
  pathArr :: "string list"
  lettersArr :: "string list"
  location :: "Position list"

text \<open>One iteration of the \<^verbatim>\<open>while (true)\<close> loop: it leaves the loop (\<^verbatim>\<open>break\<close> and the
  \<^verbatim>\<open>return\<close> after the loop, or a \<^verbatim>\<open>throw\<close>), or goes round again with a new state.\<close>

datatype step = Done "error + result" | Next walker

definition loopBody :: "grid \<Rightarrow> Position \<Rightarrow> walker \<Rightarrow> step" where
  "loopBody g end w =
     (case cellAt g (currentPosition w) of
        None \<Rightarrow> Done (Inl AbsentCell)
      | Some currentChar \<Rightarrow>
          (let path' = pathArr w @ [currentChar];
               collect = (testAZ currentChar \<and>
                          \<not> isLocationAlreadyUsed (location w) (currentPosition w));
               letters' = (if collect then lettersArr w @ [currentChar] else lettersArr w);
               location' = (if collect then location w @ [currentPosition w] else location w)
           in
           if row (currentPosition w) = row end \<and> col (currentPosition w) = col end
           then Done (Inr \<lparr>letters = concat letters', path = concat path'\<rparr>)
           else (case findNextPosition g (currentPosition w) (direction w) of
                   Inl e \<Rightarrow> Done (Inl e)
                 | Inr None \<Rightarrow> Done (Inl (Error ''Path is broken or invalid.''))
                 | Inr (Some (nextPosition, newDirection)) \<Rightarrow>
                     Next \<lparr>currentPosition = nextPosition, direction = newDirection,
                           pathArr = path', lettersArr = letters', location = location'\<rparr>)))"

text \<open>The loop itself. It has no bound on its iterations, so it is a partial function:
  \<open>None\<close> is a walk that never leaves the loop.\<close>

partial_function (option) walk :: "grid \<Rightarrow> Position \<Rightarrow> walker \<Rightarrow> (error + result) option" where
  "walk g end w = (case loopBody g end w of Done r \<Rightarrow> Some r | Next w' \<Rightarrow> walk g end w')"

declare walk.simps [code]

definition startEndMessage :: string where
  "startEndMessage =
     ''The map must contain exactly one start '' @ [CHR 0x27] @ STARTING_CHAR @ [CHR 0x27] @
     '' and one end '' @ [CHR 0x27] @ ENDING_CHAR @ [CHR 0x27] @ ''.''"

text \<open>Everything \<^verbatim>\<open>collectLettersAndPath\<close> does before the loop: the checks on the markers,
  the initial direction, and the first state of the loop (with the end position).\<close>

definition startWalk :: "grid \<Rightarrow> error + (Position \<times> walker)" where
  "startWalk g =
     (let start = findPosition g STARTING_CHAR;
          end = findPosition g ENDING_CHAR;
          haveMultipleStart = hasMultipleOccurrences g STARTING_CHAR
      in case (start, end) of
           (Some s, Some e) \<Rightarrow>
             if haveMultipleStart then Inl (Error startEndMessage)
             else (case findInitialDirection g s of
                     Inl err \<Rightarrow> Inl err
                   | Inr None \<Rightarrow> Inl (Error ''Invalid starting position or map.'')
                   | Inr (Some d) \<Rightarrow>
                       Inr (e, \<lparr>currentPosition = move s d, direction = d,
                                pathArr = [STARTING_CHAR], lettersArr = [], location = []\<rparr>))
         | _ \<Rightarrow> Inl (Error startEndMessage))"

definition collectLettersAndPath :: "grid \<Rightarrow> (error + result) option" where
  "collectLettersAndPath g =
     (case startWalk g of
        Inl e \<Rightarrow> Some (Inl e)
      | Inr (end, w) \<Rightarrow> walk g end w)"

text \<open>The first \<open>n\<close> iterations of the loop: the outcome when the loop is left within them,
  the state reached otherwise.\<close>

fun iterateLoop :: "nat \<Rightarrow> grid \<Rightarrow> Position \<Rightarrow> walker \<Rightarrow> step" where
  "iterateLoop 0 g end w = Next w"
| "iterateLoop (Suc n) g end w =
     (case loopBody g end w of Done r \<Rightarrow> Done r | Next w' \<Rightarrow> iterateLoop n g end w')"

section \<open>Notions used in the statements\<close>

text \<open>A position is walkable when it is inside the grid and its cell passes the test that
  every step of the source applies to a target cell:
  \<^verbatim>\<open>isPathCharacter(c) || /[A-Zx]/.test(c)\<close>.\<close>

definition walkableAt :: "grid \<Rightarrow> Position \<Rightarrow> bool" where
  "walkableAt g p = (case cellAt g p of None \<Rightarrow> False | Some c \<Rightarrow> isPathCharacter c \<or> testAZx c)"

text \<open>The cell at a position (the empty string outside the grid), and whether it holds an
  uppercase letter.\<close>

definition charAt :: "grid \<Rightarrow> Position \<Rightarrow> string" where
  "charAt g p = (case cellAt g p of None \<Rightarrow> [] | Some c \<Rightarrow> c)"

definition letterAt :: "grid \<Rightarrow> Position \<Rightarrow> bool" where
  "letterAt g p = testAZ (charAt g p)"

text \<open>The positions of a list in the order of their first occurrence: \<open>remdups\<close> keeps
  the last occurrence of each element, so the list is reversed around it.\<close>

definition firstVisits :: "Position list \<Rightarrow> Position list" where
  "firstVisits ps = rev (remdups (rev ps))"

text \<open>The positions the walker stands on in the first \<open>n\<close> iterations of the loop, in
  order; the list stops where the loop is left.\<close>

fun positions :: "nat \<Rightarrow> grid \<Rightarrow> Position \<Rightarrow> walker \<Rightarrow> Position list" where
  "positions 0 g end w = []"
| "positions (Suc n) g end w =
     currentPosition w #
     (case loopBody g end w of Done r \<Rightarrow> [] | Next w' \<Rightarrow> positions n g end w')"

text \<open>Grids whose cells hold at most one character each, as the spec's data model has
  them (a blank cell is the empty string or a space).\<close>

definition singleCharCells :: "grid \<Rightarrow> bool" where
  "singleCharCells g = list_all (list_all (\<lambda>c. length c \<le> 1)) g"

section \<open>Grids of the repository and of the examples\<close>

text \<open>From \<^verbatim>\<open>maps.ts\<close>: \<^verbatim>\<open>doNotCollectLetterFromSameLocationTwiceMap\<close> (here \<open>goonies\<close>),
  \<^verbatim>\<open>forkInPathMap\<close>, \<^verbatim>\<open>mapWithMultipleStartingPaths\<close> and \<^verbatim>\<open>fakeTurnMap\<close>.\<close>

definition goonies :: grid where
 "goonies = [
    ['''', '''', '''', '''', ''+'', ''-'', ''O'', ''-'', ''N'', ''-'', ''+'', '''', ''''],
    ['''', '''', '''', '''', ''|'', '''', '''', '''', '''', '''', ''|'', '''', ''''],
    ['''', '''', '''', '''', ''|'', '''', '''', '''', ''+'', ''-'', ''I'', ''-'', ''+''],
    [''@'', ''-'', ''G'', ''-'', ''O'', ''-'', ''+'', '''', ''|'', '''', ''|'', '''', ''|''],
    ['''', '''', '''', '''', ''|'', '''', ''|'', '''', ''+'', ''-'', ''+'', '''', ''E''],
    ['''', '''', '''', '''', ''+'', ''-'', ''+'', '''', '''', '''', '''', '''', ''S''],
    ['''', '''', '''', '''', '''', '''', '''', '''', '''', '''', '''', '''', ''|''],
    ['''', '''', '''', '''', '''', '''', '''', '''', '''', '''', '''', '''', ''x'']]"

definition forkInPathMap :: grid where
  "forkInPathMap =
     [['' '', '' '', '' '', '' '', '' '', '' '', ''x'', ''-'', ''B''],
      ['' '', '' '', '' '', '' '', '' '', '' '', '' '', '' '', ''|''],
      ['' '', ''@'', ''-'', ''-'', ''A'', ''-'', ''-'', ''-'', ''+''],
      ['' '', '' '', '' '', '' '', '' '', '' '', '' '', '' '', ''|''],
      ['' '', '' '', '' '', '' '', '' '', ''x'', ''+'', '' '', ''C''],
      ['' '', '' '', '' '', '' '', '' '', '' '', ''|'', '' '', ''|''],
      ['' '', '' '', '' '', '' '', '' '', '' '', ''+'', ''-'', ''-'', ''+'']]"

definition mapWithMultipleStartingPaths :: grid where
  "mapWithMultipleStartingPaths = [[''x'', ''-'', ''B'', ''-'', ''@'', ''-'', ''A'', ''-'', ''x'']]"

definition fakeTurnMap :: grid where
  "fakeTurnMap = [[''@'', ''-'', ''A'', ''-'', ''+'', ''-'', ''B'', ''-'', ''x'']]"

text \<open>From the unit tests of \<^verbatim>\<open>collectLettersAndPath\<close>: the grid with two start markers and
  the grid that is walked to \<^verbatim>\<open>{ letters: "A", path: "@-A-+x" }\<close>.\<close>

definition twoStartsMap :: grid where
  "twoStartsMap = [[''@'', ''-'', ''A'', ''-'', ''@''], ['' '', '' '', ''|'', '' '', ''x'']]"

definition smallMap :: grid where
  "smallMap = [[''@'', ''-'', ''A'', ''-'', ''+''], ['' '', '' '', ''|'', '' '', ''x'']]"

text \<open>A letter at the right edge of the grid with the end marker below it, and the same
  letter with a blank cell to its right.\<close>

definition letterTurnMap :: grid where
  "letterTurnMap = [[''@'', ''A''], ['' '', ''x'']]"

definition blockedLetterMap :: grid where
  "blockedLetterMap = [[''@'', ''A'', '' ''], ['' '', ''x'', '' '']]"

text \<open>A grid whose path is a closed square of turns that the end marker is not on, and the
  five pairs of position and direction that the walker goes through on it.\<close>

definition cyclicMap :: grid where
  "cyclicMap = [[''@'', ''+'', ''+''], ['' '', ''+'', ''+''], [''x'', '' '', '' '']]"

definition cycleStates :: "(Position \<times> Direction) list" where
  "cycleStates =
     [(\<lparr>row = 0, col = 1\<rparr>, \<lparr>row = 0, col = 1\<rparr>),
      (\<lparr>row = 1, col = 1\<rparr>, \<lparr>row = 1, col = 0\<rparr>),
      (\<lparr>row = 1, col = 2\<rparr>, \<lparr>row = 0, col = 1\<rparr>),
      (\<lparr>row = 0, col = 2\<rparr>, \<lparr>row = -1, col = 0\<rparr>),
      (\<lparr>row = 0, col = 1\<rparr>, \<lparr>row = 0, col = -1\<rparr>)]"

section \<open>Grid primitives and the direction resolver\<close>

lemma Position_eq_iff: "(p :: Position) = q \<longleftrightarrow> row p = row q \<and> col p = col q"
  by (cases p, cases q) simp

lemma cellAt_None_iff: "cellAt g p = None \<longleftrightarrow> \<not> isWithinBounds g p"
  by (auto simp: cellAt_def isWithinBounds_def Let_def)

lemma cellAt_Some_bounds: "cellAt g p = Some c \<Longrightarrow> isWithinBounds g p"
  using cellAt_None_iff [of g p] by auto

lemma walkableAt_bounds: "walkableAt g p \<Longrightarrow> isWithinBounds g p"
  by (auto simp: walkableAt_def dest: cellAt_Some_bounds split: option.splits)

lemma filterDirections_eq:
  "filterDirections d =
     (if row d = 0 then [\<lparr>row = -1, col = 0\<rparr>, \<lparr>row = 1, col = 0\<rparr>]
      else [\<lparr>row = 0, col = -1\<rparr>, \<lparr>row = 0, col = 1\<rparr>])"
  by (simp add: filterDirections_def DIRECTIONS_def)

lemma filterDirections_not_opposite:
  "dir \<in> set (filterDirections d) \<Longrightarrow> row dir \<noteq> - row d \<or> col dir \<noteq> - col d"
  by (auto simp: filterDirections_eq split: if_splits)

lemma filterDirections_not_same: "dir \<in> set (filterDirections d) \<Longrightarrow> dir \<noteq> d"
  by (auto simp: filterDirections_eq split: if_splits)

lemma filterDirections_subset: "set (filterDirections d) \<subseteq> set DIRECTIONS"
  by (simp add: filterDirections_def)

lemma testAZ_turn: "\<not> testAZ CHANGE_DIRECTION_CHAR"
  by (simp add: testAZ_def CHANGE_DIRECTION_CHAR_def isUpper_def)

lemma tryDirections_eq:
  "tryDirections g p d ds =
     Inr (case filter (\<lambda>dir. (row dir \<noteq> - row d \<or> col dir \<noteq> - col d) \<and> walkableAt g (move p dir)) ds of
            [] \<Rightarrow> None | dir # _ \<Rightarrow> Some (move p dir, dir))"
  by (induction ds) (auto simp: Let_def walkableAt_def cellAt_None_iff [symmetric] split: option.splits)

lemma tryDirections_filter:
  "tryDirections g p d (filterDirections d) =
     Inr (case filter (\<lambda>dir. walkableAt g (move p dir)) (filterDirections d) of
            [] \<Rightarrow> None | dir # _ \<Rightarrow> Some (move p dir, dir))"
proof -
  have "filter (\<lambda>dir. (row dir \<noteq> - row d \<or> col dir \<noteq> - col d) \<and> walkableAt g (move p dir)) (filterDirections d)
      = filter (\<lambda>dir. walkableAt g (move p dir)) (filterDirections d)"
    by (rule filter_cong) (use filterDirections_not_opposite in auto)
  then show ?thesis by (simp add: tryDirections_eq)
qed

lemma countValidDirections_eq:
  "countValidDirections g p ds n = Inr (n + length (filter (\<lambda>dir. walkableAt g (move p dir)) ds))"
  by (induction ds arbitrary: n)
     (auto simp: Let_def move_def walkableAt_def cellAt_None_iff [symmetric] split: option.splits)

lemma collectValidDirections_eq:
  "collectValidDirections g s ds acc = Inr (acc @ filter (\<lambda>dir. walkableAt g (move s dir)) ds)"
  by (induction ds arbitrary: acc)
     (auto simp: Let_def walkableAt_def cellAt_None_iff [symmetric] split: option.splits)

lemma haveOneValidDirection_eq:
  "haveOneValidDirection g p d =
     (case cellAt g p of None \<Rightarrow> Inl AbsentCell
      | Some ch \<Rightarrow> if ch \<noteq> CHANGE_DIRECTION_CHAR then Inr False
                   else if length (filter (\<lambda>dir. walkableAt g (move p dir)) (filterDirections d)) > 1
                        then Inl (Error ''The map must have only one valid direction.'')
                        else Inr True)"
  by (simp add: haveOneValidDirection_def countValidDirections_eq split: option.splits)

lemma findInitialDirection_eq:
  "findInitialDirection g s =
     (let vs = filter (\<lambda>dir. walkableAt g (move s dir)) DIRECTIONS in
      if length vs = 1 then Inr (Some (hd vs))
      else Inl (Error ''The map must contain exactly one starting path.''))"
proof -
  have "length vs = 1 \<Longrightarrow> vs ! 0 = hd vs" for vs :: "Direction list"
    by (cases vs) auto
  then show ?thesis
    by (simp add: findInitialDirection_def collectValidDirections_eq Let_def)
qed

lemma isWithinBounds_iff: "isWithinBounds g p \<longleftrightarrow> (\<exists>c. cellAt g p = Some c)"
  using cellAt_None_iff [of g p] by auto

section \<open>The step resolver and one iteration of the loop\<close>

lemma findNextPosition_eq:
  "findNextPosition g p d =
     (case cellAt g p of
        None \<Rightarrow> Inl AbsentCell
      | Some c \<Rightarrow>
          if c = CHANGE_DIRECTION_CHAR then
            (case filter (\<lambda>dir. walkableAt g (move p dir)) (filterDirections d) of
               [] \<Rightarrow> Inr None
             | [dir] \<Rightarrow> Inr (Some (move p dir, dir))
             | _ \<Rightarrow> Inl (Error ''The map must have only one valid direction.''))
          else if isWithinBounds g (move p d) then
            (if walkableAt g (move p d) then Inr (Some (move p d, d)) else Inr None)
          else if testAZ c then
            Inr (case filter (\<lambda>dir. walkableAt g (move p dir)) (filterDirections d) of
                   [] \<Rightarrow> None | dir # _ \<Rightarrow> Some (move p dir, dir))
          else Inr None)"
proof (cases "cellAt g p")
  case None
  then show ?thesis by (simp add: findNextPosition_def)
next
  case (Some c)
  show ?thesis
  proof (cases "c = CHANGE_DIRECTION_CHAR")
    case True
    with Some show ?thesis
      by (simp add: findNextPosition_def haveOneValidDirection_eq tryDirections_filter
               split: list.splits)
  next
    case False
    with Some show ?thesis
      by (auto simp: findNextPosition_def tryDirections_filter Let_def walkableAt_def
                     cellAt_None_iff [symmetric]
               split: option.splits)
  qed
qed

lemma findNextPosition_Some:
  assumes "findNextPosition g p d = Inr (Some (p', d'))"
  shows "p' = move p d'" and "walkableAt g p'"
    and "d' = d \<or> d' \<in> set (filterDirections d)"
proof -
  from assms obtain c where c: "cellAt g p = Some c"
    by (auto simp: findNextPosition_eq split: option.splits)
  have *: "filter P xs = y # ys \<Longrightarrow> y \<in> set xs \<and> P y" for P and xs :: "Direction list" and y ys
  proof -
    assume "filter P xs = y # ys"
    then have "y \<in> set (filter P xs)" by simp
    then show ?thesis by simp
  qed
  from assms c show "p' = move p d'"
    by (auto simp: findNextPosition_eq split: if_splits list.splits)
  from assms c show "walkableAt g p'"
    by (auto simp: findNextPosition_eq split: if_splits list.splits dest: *)
  from assms c show "d' = d \<or> d' \<in> set (filterDirections d)"
    by (auto simp: findNextPosition_eq split: if_splits list.splits dest: *)
qed

lemma findNextPosition_not_absent:
  "isWithinBounds g p \<Longrightarrow> findNextPosition g p d \<noteq> Inl AbsentCell"
  by (auto simp: findNextPosition_eq isWithinBounds_iff split: option.splits list.splits)

lemma haveOneValidDirection_not_absent:
  "isWithinBounds g p \<Longrightarrow> haveOneValidDirection g p d \<noteq> Inl AbsentCell"
  by (auto simp: haveOneValidDirection_eq isWithinBounds_iff split: option.splits)

lemma loopBody_Next:
  assumes "loopBody g e w = Next w'"
  shows "walkableAt g (currentPosition w')"
    and "currentPosition w' = move (currentPosition w) (direction w')"
    and "direction w' = direction w \<or> direction w' \<in> set (filterDirections (direction w))"
  using assms
  by (auto simp: loopBody_def Let_def split: option.splits sum.splits if_splits
           dest: findNextPosition_Some)

lemma loopBody_not_absent:
  "isWithinBounds g (currentPosition w) \<Longrightarrow> loopBody g e w \<noteq> Done (Inl AbsentCell)"
  using findNextPosition_not_absent [of g "currentPosition w" "direction w"]
  by (auto simp: loopBody_def Let_def isWithinBounds_iff
           split: option.splits sum.splits if_splits)

section \<open>The loop and its iterations\<close>

lemma iterateLoop_Done_walk:
  "iterateLoop n g e w = Done r \<Longrightarrow> walk g e w = Some r"
proof (induction n arbitrary: w)
  case 0
  then show ?case by simp
next
  case (Suc n)
  then show ?case
    by (subst walk.simps) (auto split: step.splits)
qed

lemma walk_Some_iterateLoop:
  assumes "walk g e w = Some r"
  shows "\<exists>n. iterateLoop n g e w = Done r"
proof (rule walk.raw_induct [where P = "\<lambda>g e w r. \<exists>n. iterateLoop n g e w = Done r", OF _ assms])
  fix f g e w r
  assume IH: "\<And>e w b y. f e w b = Some y \<Longrightarrow> \<exists>n. iterateLoop n e w b = Done y"
  assume eq: "(case loopBody g e w of Done r \<Rightarrow> Some r | Next w' \<Rightarrow> f g e w') = Some r"
  show "\<exists>n. iterateLoop n g e w = Done r"
  proof (cases "loopBody g e w")
    case (Done r')
    with eq have "iterateLoop (Suc 0) g e w = Done r" by simp
    then show ?thesis by blast
  next
    case (Next w')
    with eq have "f g e w' = Some r" by simp
    then obtain n where "iterateLoop n g e w' = Done r" using IH by blast
    with Next have "iterateLoop (Suc n) g e w = Done r" by simp
    then show ?thesis by blast
  qed
qed

lemma iterateLoop_add:
  "iterateLoop n g e w = Next w' \<Longrightarrow> iterateLoop (n + m) g e w = iterateLoop m g e w'"
  by (induction n arbitrary: w) (auto split: step.splits)

lemma iterateLoop_Suc_Next:
  "iterateLoop n g e w = Next w' \<Longrightarrow> iterateLoop (Suc n) g e w = loopBody g e w'"
  using iterateLoop_add [of n g e w w' 1] by (simp split: step.splits)

lemma collect_reject:
  "startWalk g = Inl err \<Longrightarrow> collectLettersAndPath g = Some (Inl err)"
  by (simp add: collectLettersAndPath_def)

lemma collect_at_state:
  assumes "startWalk g = Inr (e, w0)" and "iterateLoop n g e w0 = Next w"
    and "loopBody g e w = Done r"
  shows "collectLettersAndPath g = Some r"
proof -
  from iterateLoop_Suc_Next [OF assms(2)] assms(3)
  have "iterateLoop (Suc n) g e w0 = Done r" by simp
  from iterateLoop_Done_walk [OF this] assms(1) show ?thesis
    by (simp add: collectLettersAndPath_def)
qed

section \<open>Finding the markers\<close>

lemma findInRow_None_iff: "findInRow cells ch c = None \<longleftrightarrow> ch \<notin> set cells"
  by (induction cells arbitrary: c) auto

lemma findInRow_Some:
  "findInRow cells ch c = Some k \<Longrightarrow>
     c \<le> k \<and> k < c + int (length cells) \<and> cells ! nat (k - c) = ch"
proof (induction cells arbitrary: c)
  case Nil
  then show ?case by simp
next
  case (Cons cell cells)
  show ?case
  proof (cases "cell = ch")
    case True
    with Cons.prems show ?thesis by simp
  next
    case False
    with Cons.prems have "findInRow cells ch (c + 1) = Some k" by simp
    from Cons.IH [OF this] have k: "c + 1 \<le> k" "k < c + 1 + int (length cells)"
      "cells ! nat (k - (c + 1)) = ch" by auto
    from k(1) have "nat (k - c) = Suc (nat (k - (c + 1)))" by simp
    with k show ?thesis by simp
  qed
qed

lemma findInRows_None_iff: "findInRows rows ch r = None \<longleftrightarrow> ch \<notin> set (concat rows)"
proof (induction rows arbitrary: r)
  case Nil
  then show ?case by simp
next
  case (Cons cells rows)
  show ?case
  proof (cases "findInRow cells ch 0")
    case None
    then have "ch \<notin> set cells" by (simp add: findInRow_None_iff)
    with None Cons.IH [of "r + 1"] show ?thesis by simp
  next
    case (Some c)
    then have "ch \<in> set cells" using findInRow_None_iff [of cells ch 0] by auto
    with Some show ?thesis by simp
  qed
qed

lemma findInRows_Some:
  "findInRows rows ch r = Some p \<Longrightarrow>
     r \<le> row p \<and> row p < r + int (length rows) \<and> 0 \<le> col p \<and>
     col p < int (length (rows ! nat (row p - r))) \<and>
     rows ! nat (row p - r) ! nat (col p) = ch"
proof (induction rows arbitrary: r)
  case Nil
  then show ?case by simp
next
  case (Cons cells rows)
  show ?case
  proof (cases "findInRow cells ch 0")
    case None
    with Cons.prems have "findInRows rows ch (r + 1) = Some p" by simp
    from Cons.IH [OF this] have k: "r + 1 \<le> row p" "row p < r + 1 + int (length rows)"
      "0 \<le> col p" "col p < int (length (rows ! nat (row p - (r + 1))))"
      "rows ! nat (row p - (r + 1)) ! nat (col p) = ch" by auto
    from k(1) have "nat (row p - r) = Suc (nat (row p - (r + 1)))" by simp
    with k show ?thesis by simp
  next
    case (Some c)
    with Cons.prems have p: "p = \<lparr>row = r, col = c\<rparr>" by simp
    from findInRow_Some [OF Some] p show ?thesis by simp
  qed
qed

lemma findPosition_None_iff: "findPosition g ch = None \<longleftrightarrow> ch \<notin> set (concat g)"
  by (simp add: findPosition_def findInRows_None_iff)

lemma findPosition_Some: "findPosition g ch = Some p \<Longrightarrow> cellAt g p = Some ch"
  using findInRows_Some [of g ch 0 p] by (simp add: findPosition_def cellAt_def)

lemma occurrencesInRow_eq:
  "occurrencesInRow cells t occ =
     (if 2 \<le> (if t \<in> occ then 1 else 0) + count_list cells t then Inl ()
      else Inr (if 0 < count_list cells t then insert t occ else occ))"
  by (induction cells arbitrary: occ) auto

lemma occurrencesInRows_eq:
  "occurrencesInRows rows t occ \<longleftrightarrow>
     2 \<le> (if t \<in> occ then 1 else 0) + count_list (concat rows) t"
  by (induction rows arbitrary: occ) (auto simp: occurrencesInRow_eq)

lemma hasMultipleOccurrences_iff:
  "hasMultipleOccurrences g t \<longleftrightarrow> 2 \<le> count_list (concat g) t"
  by (simp add: hasMultipleOccurrences_def occurrencesInRows_eq)

lemma startEndMessage_text:
  "startEndMessage = ''The map must contain exactly one start '' @ [CHR 0x27] @ ''@'' @
     [CHR 0x27] @ '' and one end '' @ [CHR 0x27] @ ''x'' @ [CHR 0x27] @ ''.''"
  by (simp add: startEndMessage_def STARTING_CHAR_def ENDING_CHAR_def)

lemma startWalk_reject:
  assumes "count_list (concat g) STARTING_CHAR \<noteq> 1 \<or> ENDING_CHAR \<notin> set (concat g)"
  shows "startWalk g = Inl (Error startEndMessage)"
proof -
  from assms consider "STARTING_CHAR \<notin> set (concat g)" | "2 \<le> count_list (concat g) STARTING_CHAR"
    | "ENDING_CHAR \<notin> set (concat g)"
    by (metis One_nat_def Suc_1 count_list_0_iff less_2_cases not_less)
  then show ?thesis
  proof cases
    case 1
    then have "findPosition g STARTING_CHAR = None" by (simp add: findPosition_None_iff)
    then show ?thesis by (simp add: startWalk_def)
  next
    case 2
    then have "hasMultipleOccurrences g STARTING_CHAR" by (simp add: hasMultipleOccurrences_iff)
    then show ?thesis by (simp add: startWalk_def split: option.splits)
  next
    case 3
    then have "findPosition g ENDING_CHAR = None" by (simp add: findPosition_None_iff)
    then show ?thesis by (simp add: startWalk_def split: option.splits)
  qed
qed

lemma startWalk_Inr:
  assumes "startWalk g = Inr (e, w0)"
  shows "cellAt g e = Some ENDING_CHAR" and "walkableAt g (currentPosition w0)"
    and "direction w0 \<in> set DIRECTIONS" and "pathArr w0 = [STARTING_CHAR]"
    and "lettersArr w0 = []" and "location w0 = []"
proof -
  from assms obtain s d where s: "findPosition g STARTING_CHAR = Some s"
    and e: "findPosition g ENDING_CHAR = Some e"
    and d: "findInitialDirection g s = Inr (Some d)"
    and w0: "w0 = \<lparr>currentPosition = move s d, direction = d,
                    pathArr = [STARTING_CHAR], lettersArr = [], location = []\<rparr>"
    by (auto simp: startWalk_def Let_def split: option.splits if_splits sum.splits)
  from e show "cellAt g e = Some ENDING_CHAR" by (rule findPosition_Some)
  let ?vs = "filter (\<lambda>dir. walkableAt g (move s dir)) DIRECTIONS"
  from d have "length ?vs = 1" "d = hd ?vs"
    by (auto simp: findInitialDirection_eq Let_def split: if_splits)
  then have "d \<in> set ?vs" by (cases ?vs) auto
  then have "d \<in> set DIRECTIONS" "walkableAt g (move s d)" by auto
  with w0 show "walkableAt g (currentPosition w0)" "direction w0 \<in> set DIRECTIONS" by auto
  from w0 show "pathArr w0 = [STARTING_CHAR]" "lettersArr w0 = []" "location w0 = []" by auto
qed

lemma startWalk_not_absent: "startWalk g \<noteq> Inl AbsentCell"
  by (auto simp: startWalk_def Let_def findInitialDirection_eq split: option.splits if_splits sum.splits)

lemma turn_not_end:
  assumes "startWalk g = Inr (e, w0)" and "cellAt g p = Some CHANGE_DIRECTION_CHAR"
  shows "p \<noteq> e"
  using startWalk_Inr(1) [OF assms(1)] assms(2)
  by (auto simp: CHANGE_DIRECTION_CHAR_def ENDING_CHAR_def)

section \<open>Invariants of the walk\<close>

lemma invariant_iterate:
  "walkableAt g (currentPosition w) \<Longrightarrow> direction w \<in> set DIRECTIONS \<Longrightarrow>
   iterateLoop n g e w = Next w' \<Longrightarrow>
   walkableAt g (currentPosition w') \<and> direction w' \<in> set DIRECTIONS"
proof (induction n arbitrary: w)
  case 0
  then show ?case by simp
next
  case (Suc n)
  from Suc.prems(3) obtain w1 where w1: "loopBody g e w = Next w1"
    and rest: "iterateLoop n g e w1 = Next w'"
    by (auto split: step.splits)
  from loopBody_Next [OF w1] Suc.prems(2) filterDirections_subset [of "direction w"]
  have "walkableAt g (currentPosition w1)" "direction w1 \<in> set DIRECTIONS" by auto
  then show ?case using rest by (rule Suc.IH)
qed

lemma reachable_invariant:
  assumes "startWalk g = Inr (e, w0)" and "iterateLoop n g e w0 = Next w"
  shows "walkableAt g (currentPosition w)" and "direction w \<in> set DIRECTIONS"
  using invariant_iterate [OF startWalk_Inr(2,3) [OF assms(1)] assms(2)] by auto

lemma DIRECTIONS_not_opposite:
  "d \<in> set DIRECTIONS \<Longrightarrow> \<not> (row d = - row d \<and> col d = - col d)"
  by (auto simp: DIRECTIONS_def)

lemma isLocationAlreadyUsed_iff: "isLocationAlreadyUsed ps p \<longleftrightarrow> p \<in> set ps"
proof -
  have "(col v = col p \<and> row v = row p) = (v = p)" for v
    by (auto simp: Position_eq_iff [of v p])
  then show ?thesis by (auto simp: isLocationAlreadyUsed_def list_ex_iff)
qed

lemma loopBody_eq:
  "loopBody g e w =
     (case cellAt g (currentPosition w) of
        None \<Rightarrow> Done (Inl AbsentCell)
      | Some currentChar \<Rightarrow>
          (let path' = pathArr w @ [currentChar];
               collect = (testAZ currentChar \<and> currentPosition w \<notin> set (location w));
               letters' = (if collect then lettersArr w @ [currentChar] else lettersArr w);
               location' = (if collect then location w @ [currentPosition w] else location w)
           in
           if currentPosition w = e
           then Done (Inr \<lparr>letters = concat letters', path = concat path'\<rparr>)
           else (case findNextPosition g (currentPosition w) (direction w) of
                   Inl e \<Rightarrow> Done (Inl e)
                 | Inr None \<Rightarrow> Done (Inl (Error ''Path is broken or invalid.''))
                 | Inr (Some (nextPosition, newDirection)) \<Rightarrow>
                     Next \<lparr>currentPosition = nextPosition, direction = newDirection,
                           pathArr = path', lettersArr = letters', location = location'\<rparr>)))"
proof -
  have c: "(row (currentPosition w) = row e \<and> col (currentPosition w) = col e) =
      (currentPosition w = e)"
    by (auto simp: Position_eq_iff [of "currentPosition w" e])
  show ?thesis
    unfolding loopBody_def isLocationAlreadyUsed_iff c by (rule refl)
qed

lemma firstVisits_snoc:
  "firstVisits (ps @ [p]) = (if p \<in> set ps then firstVisits ps else firstVisits ps @ [p])"
  by (simp add: firstVisits_def)

lemma set_firstVisits: "set (firstVisits ps) = set ps"
  by (simp add: firstVisits_def)

lemma distinct_firstVisits: "distinct (firstVisits ps)"
  by (simp add: firstVisits_def)

lemma loopBody_Done_path:
  assumes "loopBody g e w = Done (Inr r)"
  shows "currentPosition w = e" and "path r = concat (pathArr w) @ charAt g e"
  using assms
  by (auto simp: loopBody_eq Let_def charAt_def
           split: option.splits sum.splits if_splits)

lemma loopBody_Next_path:
  assumes "loopBody g e w = Next w'"
  shows "pathArr w' = pathArr w @ [charAt g (currentPosition w)]"
  using assms
  by (auto simp: loopBody_def Let_def charAt_def split: option.splits sum.splits if_splits)

lemma path_ends:
  "iterateLoop n g e w = Done (Inr r) \<Longrightarrow> cellAt g e = Some ENDING_CHAR \<Longrightarrow>
   pathArr w = STARTING_CHAR # rest \<Longrightarrow>
   path r \<noteq> [] \<and> hd (path r) = CHR ''@'' \<and> last (path r) = CHR ''x''"
proof (induction n arbitrary: w rest)
  case 0
  then show ?case by simp
next
  case (Suc n)
  show ?case
  proof (cases "loopBody g e w")
    case (Done r')
    with Suc.prems(1) have "loopBody g e w = Done (Inr r)" by simp
    from loopBody_Done_path(2) [OF this] Suc.prems(2,3) show ?thesis
      by (simp add: charAt_def STARTING_CHAR_def ENDING_CHAR_def)
  next
    case (Next w')
    with Suc.prems(1) have it: "iterateLoop n g e w' = Done (Inr r)" by simp
    from loopBody_Next_path [OF Next] Suc.prems(3)
    have "pathArr w' = STARTING_CHAR # (rest @ [charAt g (currentPosition w)])" by simp
    from Suc.IH [OF it Suc.prems(2) this] show ?thesis .
  qed
qed

lemma iterate_not_absent:
  "walkableAt g (currentPosition w) \<Longrightarrow> iterateLoop n g e w \<noteq> Done (Inl AbsentCell)"
proof (induction n arbitrary: w)
  case 0
  then show ?case by simp
next
  case (Suc n)
  show ?case
  proof (cases "loopBody g e w")
    case (Done r)
    with loopBody_not_absent [OF walkableAt_bounds [OF Suc.prems], of e] show ?thesis by simp
  next
    case (Next w')
    from Suc.IH [OF loopBody_Next(1) [OF Next]] Next show ?thesis by simp
  qed
qed

lemma collect_success:
  "collectLettersAndPath g = Some (Inr r) \<longleftrightarrow>
     (\<exists>e w0 n. startWalk g = Inr (e, w0) \<and> iterateLoop n g e w0 = Done (Inr r))"
  by (auto simp: collectLettersAndPath_def split: sum.splits
           dest: walk_Some_iterateLoop iterateLoop_Done_walk)

section \<open>The visited positions and the two results\<close>

lemma loopBody_Done_trace:
  assumes "loopBody g e w = Done (Inr r)"
  shows "path r = concat (pathArr w @ [charAt g (currentPosition w)])"
    and "letters r = concat (lettersArr w @
           (if letterAt g (currentPosition w) \<and> currentPosition w \<notin> set (location w)
            then [charAt g (currentPosition w)] else []))"
  using assms
  by (auto simp: loopBody_eq Let_def charAt_def letterAt_def
           split: option.splits sum.splits if_splits)

lemma loopBody_Next_trace:
  assumes "loopBody g e w = Next w'"
  shows "pathArr w' = pathArr w @ [charAt g (currentPosition w)]"
    and "lettersArr w' = lettersArr w @
           (if letterAt g (currentPosition w) \<and> currentPosition w \<notin> set (location w)
            then [charAt g (currentPosition w)] else [])"
    and "location w' = location w @
           (if letterAt g (currentPosition w) \<and> currentPosition w \<notin> set (location w)
            then [currentPosition w] else [])"
  using assms
  by (auto simp: loopBody_eq Let_def charAt_def letterAt_def
           split: option.splits sum.splits if_splits)

lemma firstVisits_filter_snoc:
  "firstVisits (filter P (ps @ [p])) =
     firstVisits (filter P ps) @ (if P p \<and> p \<notin> set (firstVisits (filter P ps)) then [p] else [])"
  by (simp add: firstVisits_snoc set_firstVisits)

lemma walk_trace:
  "iterateLoop n g e w = Done (Inr r) \<Longrightarrow>
   pathArr w = STARTING_CHAR # map (charAt g) pre \<Longrightarrow>
   location w = firstVisits (filter (letterAt g) pre) \<Longrightarrow>
   lettersArr w = map (charAt g) (location w) \<Longrightarrow>
   path r = concat (STARTING_CHAR # map (charAt g) (pre @ positions n g e w)) \<and>
   letters r = concat (map (charAt g) (firstVisits (filter (letterAt g) (pre @ positions n g e w))))"
proof (induction n arbitrary: w pre)
  case 0
  then show ?case by simp
next
  case (Suc n)
  let ?p = "currentPosition w"
  have fv: "firstVisits (filter (letterAt g) (pre @ [?p])) =
      location w @ (if letterAt g ?p \<and> ?p \<notin> set (location w) then [?p] else [])"
    using Suc.prems(3) by (simp only: firstVisits_filter_snoc)
  show ?case
  proof (cases "loopBody g e w")
    case (Done r')
    with Suc.prems(1) have d: "loopBody g e w = Done (Inr r)" by simp
    have pos: "positions (Suc n) g e w = [?p]" using Done by simp
    have "map (charAt g) (firstVisits (filter (letterAt g) (pre @ [?p]))) =
        lettersArr w @ (if letterAt g ?p \<and> ?p \<notin> set (location w) then [charAt g ?p] else [])"
      unfolding fv using Suc.prems(4) by simp
    with loopBody_Done_trace [OF d] Suc.prems(2) show ?thesis
      unfolding pos by simp
  next
    case (Next w')
    with Suc.prems(1) have it: "iterateLoop n g e w' = Done (Inr r)" by simp
    have pos: "positions (Suc n) g e w = ?p # positions n g e w'" using Next by simp
    note t = loopBody_Next_trace [OF Next]
    have 1: "pathArr w' = STARTING_CHAR # map (charAt g) (pre @ [?p])"
      using t(1) Suc.prems(2) by simp
    have 2: "location w' = firstVisits (filter (letterAt g) (pre @ [?p]))"
      using t(3) fv by simp
    have 3: "lettersArr w' = map (charAt g) (location w')"
      unfolding t(2,3) using Suc.prems(4) by simp
    from Suc.IH [OF it 1 2 3] show ?thesis unfolding pos by simp
  qed
qed

lemma positions_walkable:
  "walkableAt g (currentPosition w) \<Longrightarrow> p \<in> set (positions n g e w) \<Longrightarrow> walkableAt g p"
proof (induction n arbitrary: w)
  case 0
  then show ?case by simp
next
  case (Suc n)
  show ?case
  proof (cases "p = currentPosition w")
    case True
    with Suc.prems(1) show ?thesis by simp
  next
    case False
    with Suc.prems(2) obtain w' where w': "loopBody g e w = Next w'"
      and p: "p \<in> set (positions n g e w')"
      by (cases "loopBody g e w") auto
    from Suc.IH [OF loopBody_Next(1) [OF w'] p] show ?thesis .
  qed
qed

lemma cellAt_in_grid:
  "cellAt g p = Some c \<Longrightarrow> \<exists>cells \<in> set g. c \<in> set cells"
  by (auto simp: cellAt_def Let_def split: if_splits) (metis nth_mem nat_less_iff)

lemma walkable_single_char:
  assumes "singleCharCells g" and "walkableAt g p"
  shows "length (charAt g p) = 1"
proof -
  from assms(2) obtain c where c: "cellAt g p = Some c" "isPathCharacter c \<or> testAZx c"
    by (auto simp: walkableAt_def split: option.splits)
  from c(2) have "c \<noteq> []"
    by (auto simp: isPathCharacter_def testAZx_def MINUS_CHAR_def VERTICAL_CHAR_def
                   CHANGE_DIRECTION_CHAR_def)
  moreover from cellAt_in_grid [OF c(1)] assms(1) have "length c \<le> 1"
    by (auto simp: singleCharCells_def list_all_iff)
  ultimately show ?thesis using c(1) by (cases c) (auto simp: charAt_def)
qed

lemma length_concat_single:
  "(\<And>x. x \<in> set xs \<Longrightarrow> length (f x) = 1) \<Longrightarrow> length (concat (map f xs)) = length xs"
  by (induction xs) auto

section \<open>Evaluation on the grids\<close>

lemma findNextPosition_cycle:
  "findNextPosition cyclicMap \<lparr>row = 0, col = 1\<rparr> \<lparr>row = 0, col = 1\<rparr> = Inr (Some (\<lparr>row = 1, col = 1\<rparr>, \<lparr>row = 1, col = 0\<rparr>))"
  "findNextPosition cyclicMap \<lparr>row = 1, col = 1\<rparr> \<lparr>row = 1, col = 0\<rparr> = Inr (Some (\<lparr>row = 1, col = 2\<rparr>, \<lparr>row = 0, col = 1\<rparr>))"
  "findNextPosition cyclicMap \<lparr>row = 1, col = 2\<rparr> \<lparr>row = 0, col = 1\<rparr> = Inr (Some (\<lparr>row = 0, col = 2\<rparr>, \<lparr>row = -1, col = 0\<rparr>))"
  "findNextPosition cyclicMap \<lparr>row = 0, col = 2\<rparr> \<lparr>row = -1, col = 0\<rparr> = Inr (Some (\<lparr>row = 0, col = 1\<rparr>, \<lparr>row = 0, col = -1\<rparr>))"
  "findNextPosition cyclicMap \<lparr>row = 0, col = 1\<rparr> \<lparr>row = 0, col = -1\<rparr> = Inr (Some (\<lparr>row = 1, col = 1\<rparr>, \<lparr>row = 1, col = 0\<rparr>))"
  by code_simp+

lemma cellAt_cycle:
  "cellAt cyclicMap \<lparr>row = 0, col = 1\<rparr> = Some ''+''"
  "cellAt cyclicMap \<lparr>row = 1, col = 1\<rparr> = Some ''+''"
  "cellAt cyclicMap \<lparr>row = 1, col = 2\<rparr> = Some ''+''"
  "cellAt cyclicMap \<lparr>row = 0, col = 2\<rparr> = Some ''+''"
  by code_simp+

lemma startWalk_cyclicMap:
  "startWalk cyclicMap = Inr (\<lparr>row = 2, col = 0\<rparr>,
     \<lparr>currentPosition = \<lparr>row = 0, col = 1\<rparr>, direction = \<lparr>row = 0, col = 1\<rparr>,
      pathArr = [''@''], lettersArr = [], location = []\<rparr>)"
  by code_simp

lemma loopBody_cycle:
  assumes "(currentPosition w, direction w) \<in> set cycleStates"
  shows "\<exists>w'. loopBody cyclicMap \<lparr>row = 2, col = 0\<rparr> w = Next w' \<and>
              (currentPosition w', direction w') \<in> set cycleStates"
proof -
  from assms consider
      "currentPosition w = \<lparr>row = 0, col = 1\<rparr>" "direction w = \<lparr>row = 0, col = 1\<rparr>"
    | "currentPosition w = \<lparr>row = 1, col = 1\<rparr>" "direction w = \<lparr>row = 1, col = 0\<rparr>"
    | "currentPosition w = \<lparr>row = 1, col = 2\<rparr>" "direction w = \<lparr>row = 0, col = 1\<rparr>"
    | "currentPosition w = \<lparr>row = 0, col = 2\<rparr>" "direction w = \<lparr>row = -1, col = 0\<rparr>"
    | "currentPosition w = \<lparr>row = 0, col = 1\<rparr>" "direction w = \<lparr>row = 0, col = -1\<rparr>"
    by (auto simp: cycleStates_def)
  then show ?thesis
    by cases (simp_all add: loopBody_eq cellAt_cycle findNextPosition_cycle cycleStates_def Let_def)
qed

lemma iterateLoop_cycle:
  "(currentPosition w, direction w) \<in> set cycleStates \<Longrightarrow>
   \<exists>w'. iterateLoop n cyclicMap \<lparr>row = 2, col = 0\<rparr> w = Next w'"
proof (induction n arbitrary: w)
  case 0
  then show ?case by simp
next
  case (Suc n)
  from loopBody_cycle [OF Suc.prems] obtain w1
    where "loopBody cyclicMap \<lparr>row = 2, col = 0\<rparr> w = Next w1"
      and "(currentPosition w1, direction w1) \<in> set cycleStates" by blast
  with Suc.IH [of w1] show ?case by simp
qed

lemma startWalk_forkInPathMap:
  "startWalk forkInPathMap = Inr (\<lparr>row = 0, col = 6\<rparr>,
     \<lparr>currentPosition = \<lparr>row = 2, col = 2\<rparr>, direction = \<lparr>row = 0, col = 1\<rparr>,
      pathArr = [''@''], lettersArr = [], location = []\<rparr>)"
  by code_simp

lemma iterateLoop_forkInPathMap:
  "iterateLoop 6 forkInPathMap \<lparr>row = 0, col = 6\<rparr>
     \<lparr>currentPosition = \<lparr>row = 2, col = 2\<rparr>, direction = \<lparr>row = 0, col = 1\<rparr>,
      pathArr = [''@''], lettersArr = [], location = []\<rparr> =
   Next \<lparr>currentPosition = \<lparr>row = 2, col = 8\<rparr>, direction = \<lparr>row = 0, col = 1\<rparr>,
         pathArr = [''@'', ''-'', ''-'', ''A'', ''-'', ''-'', ''-''], lettersArr = [''A''],
         location = [\<lparr>row = 2, col = 4\<rparr>]\<rparr>"
  by code_simp

lemma startWalk_fakeTurnMap:
  "startWalk fakeTurnMap = Inr (\<lparr>row = 0, col = 8\<rparr>,
     \<lparr>currentPosition = \<lparr>row = 0, col = 1\<rparr>, direction = \<lparr>row = 0, col = 1\<rparr>,
      pathArr = [''@''], lettersArr = [], location = []\<rparr>)"
  by code_simp

lemma iterateLoop_fakeTurnMap:
  "iterateLoop 3 fakeTurnMap \<lparr>row = 0, col = 8\<rparr>
     \<lparr>currentPosition = \<lparr>row = 0, col = 1\<rparr>, direction = \<lparr>row = 0, col = 1\<rparr>,
      pathArr = [''@''], lettersArr = [], location = []\<rparr> =
   Next \<lparr>currentPosition = \<lparr>row = 0, col = 4\<rparr>, direction = \<lparr>row = 0, col = 1\<rparr>,
         pathArr = [''@'', ''-'', ''A'', ''-''], lettersArr = [''A''],
         location = [\<lparr>row = 0, col = 2\<rparr>]\<rparr>"
  by code_simp

lemma collect_goonies:
  "collectLettersAndPath goonies =
     Some (Inr \<lparr>letters = ''GOONIES'', path = ''@-G-O-+|+-+|O||+-O-N-+|I|+-+|+-I-+|ES|x''\<rparr>)"
  by code_simp

lemma startWalk_smallMap:
  "startWalk smallMap = Inr (\<lparr>row = 1, col = 4\<rparr>,
     \<lparr>currentPosition = \<lparr>row = 0, col = 1\<rparr>, direction = \<lparr>row = 0, col = 1\<rparr>,
      pathArr = [''@''], lettersArr = [], location = []\<rparr>)"
  by code_simp

lemma iterateLoop_smallMap:
  "iterateLoop 3 smallMap \<lparr>row = 1, col = 4\<rparr>
     \<lparr>currentPosition = \<lparr>row = 0, col = 1\<rparr>, direction = \<lparr>row = 0, col = 1\<rparr>,
      pathArr = [''@''], lettersArr = [], location = []\<rparr> =
   Next \<lparr>currentPosition = \<lparr>row = 0, col = 4\<rparr>, direction = \<lparr>row = 0, col = 1\<rparr>,
         pathArr = [''@'', ''-'', ''A'', ''-''], lettersArr = [''A''],
         location = [\<lparr>row = 0, col = 2\<rparr>]\<rparr>"
  by code_simp

lemma loopBody_smallMap:
  "loopBody smallMap \<lparr>row = 1, col = 4\<rparr>
     \<lparr>currentPosition = \<lparr>row = 0, col = 4\<rparr>, direction = \<lparr>row = 0, col = 1\<rparr>,
      pathArr = [''@'', ''-'', ''A'', ''-''], lettersArr = [''A''],
      location = [\<lparr>row = 0, col = 2\<rparr>]\<rparr> =
   Next \<lparr>currentPosition = \<lparr>row = 1, col = 4\<rparr>, direction = \<lparr>row = 1, col = 0\<rparr>,
         pathArr = [''@'', ''-'', ''A'', ''-'', ''+''], lettersArr = [''A''],
         location = [\<lparr>row = 0, col = 2\<rparr>]\<rparr>"
  by code_simp

section \<open>The claims\<close>

text \<open>
  Claim C1, as the code has it. A grid with no start marker \<^verbatim>\<open>@\<close>, with two or more of
  them, or with no end marker \<^verbatim>\<open>x\<close> is rejected before the walk begins: already the
  part of \<^verbatim>\<open>collectLettersAndPath\<close> in front of the loop throws
  \<^verbatim>\<open>The map must contain exactly one start '@' and one end 'x'.\<close> (the apostrophe is
  \<open>CHR 0x27\<close>). The number of end markers is not checked: the source calls
  \<^verbatim>\<open>hasMultipleOccurrences\<close> for the start marker only.
\<close>

theorem start_end_rejected:
  assumes "count_list (concat g) STARTING_CHAR \<noteq> 1 \<or> ENDING_CHAR \<notin> set (concat g)"
  shows "startWalk g = Inl (Error startEndMessage) \<and>
         collectLettersAndPath g = Some (Inl (Error startEndMessage)) \<and>
         startEndMessage =
           ''The map must contain exactly one start '' @ [CHR 0x27] @ ''@'' @ [CHR 0x27] @
           '' and one end '' @ [CHR 0x27] @ ''x'' @ [CHR 0x27] @ ''.''"
  using startWalk_reject [OF assms] collect_reject startEndMessage_text by simp

text \<open>The grid of the unit test with two start markers is rejected.\<close>

theorem start_end_rejected_witness:
  "count_list (concat twoStartsMap) STARTING_CHAR = 2 \<and>
   collectLettersAndPath twoStartsMap = Some (Inl (Error startEndMessage))"
proof -
  have h: "count_list (concat twoStartsMap) STARTING_CHAR = 2" by code_simp
  then have "count_list (concat twoStartsMap) STARTING_CHAR \<noteq> 1 \<or>
      ENDING_CHAR \<notin> set (concat twoStartsMap)" by simp
  from start_end_rejected [OF this] h show ?thesis by simp
qed

text \<open>
  Counterexample to C1 as the spec states it, which also rejects a grid with several end
  markers. The grid
  \<^verbatim>\<open>mapWithMultipleStartingPaths\<close> of the repository has one start marker and two end
  markers, so it does not contain exactly one of each; it is not rejected with the message
  about the markers, but later, with the message about the starting path, which is what
  the repository's test expects of it.
\<close>

theorem two_ends_not_rejected:
  "\<not> (count_list (concat mapWithMultipleStartingPaths) STARTING_CHAR = 1 \<and>
      count_list (concat mapWithMultipleStartingPaths) ENDING_CHAR = 1) \<and>
   collectLettersAndPath mapWithMultipleStartingPaths =
     Some (Inl (Error ''The map must contain exactly one starting path.'')) \<and>
   collectLettersAndPath mapWithMultipleStartingPaths \<noteq> Some (Inl (Error startEndMessage))"
proof -
  have 1: "count_list (concat mapWithMultipleStartingPaths) ENDING_CHAR = 2" by code_simp
  have 2: "collectLettersAndPath mapWithMultipleStartingPaths =
     Some (Inl (Error ''The map must contain exactly one starting path.''))" by code_simp
  have 3: "startEndMessage \<noteq> ''The map must contain exactly one starting path.''"
    by (simp add: startEndMessage_text)
  from 1 2 3 show ?thesis by simp
qed

text \<open>
  Claim C2 says that \<^verbatim>\<open>collectLettersAndPath\<close> returns or throws on every grid after
  finitely many iterations of its loop. On \<open>cyclicMap\<close> it does neither: the markers and
  the initial direction are accepted, after any number of iterations the loop is still
  running (the walker goes round the square of turns), and so the function never returns.
\<close>

theorem cyclicMap_never_returns:
  "startWalk cyclicMap = Inr (\<lparr>row = 2, col = 0\<rparr>,
     \<lparr>currentPosition = \<lparr>row = 0, col = 1\<rparr>, direction = \<lparr>row = 0, col = 1\<rparr>,
      pathArr = [''@''], lettersArr = [], location = []\<rparr>) \<and>
   (\<forall>n. \<exists>w. iterateLoop n cyclicMap \<lparr>row = 2, col = 0\<rparr>
       \<lparr>currentPosition = \<lparr>row = 0, col = 1\<rparr>, direction = \<lparr>row = 0, col = 1\<rparr>,
        pathArr = [''@''], lettersArr = [], location = []\<rparr> = Next w) \<and>
   collectLettersAndPath cyclicMap = None"
proof -
  let ?e = "\<lparr>row = 2, col = 0\<rparr> :: Position"
  let ?w0 = "\<lparr>currentPosition = \<lparr>row = 0, col = 1\<rparr>, direction = \<lparr>row = 0, col = 1\<rparr>,
              pathArr = [''@''], lettersArr = [], location = []\<rparr>"
  have running: "\<exists>w. iterateLoop n cyclicMap ?e ?w0 = Next w" for n
    by (rule iterateLoop_cycle) (simp add: cycleStates_def)
  have "collectLettersAndPath cyclicMap = None"
  proof (cases "collectLettersAndPath cyclicMap")
    case None
    then show ?thesis .
  next
    case (Some r)
    then have "walk cyclicMap ?e ?w0 = Some r"
      by (simp add: collectLettersAndPath_def startWalk_cyclicMap)
    from walk_Some_iterateLoop [OF this] obtain n
      where "iterateLoop n cyclicMap ?e ?w0 = Done r" ..
    with running [of n] show ?thesis by auto
  qed
  with running startWalk_cyclicMap show ?thesis by blast
qed

text \<open>
  Claim C3, as the code has it. At a cell that holds an uppercase letter: when the cell
  ahead is off the grid, \<^verbatim>\<open>findNextPosition\<close> takes the first of the directions
  perpendicular to the current one whose cell is inside the grid and walkable, and returns
  \<^verbatim>\<open>null\<close> (the walk fails) only when there is none; none of these candidates is the
  reverse of the current direction. When the cell ahead is inside the grid, the walker goes
  straight on if that cell is walkable and the walk fails otherwise: the perpendicular
  directions are tried only in the \<^verbatim>\<open>else\<close> branch of the bounds check.
\<close>

theorem letter_turn_off_grid:
  assumes "cellAt g p = Some c" and "testAZ c"
  shows "(\<not> isWithinBounds g (move p d) \<longrightarrow>
            findNextPosition g p d =
              Inr (case filter (\<lambda>dir. walkableAt g (move p dir)) (filterDirections d) of
                     [] \<Rightarrow> None | dir # _ \<Rightarrow> Some (move p dir, dir))) \<and>
         (isWithinBounds g (move p d) \<longrightarrow>
            findNextPosition g p d =
              (if walkableAt g (move p d) then Inr (Some (move p d, d)) else Inr None)) \<and>
         list_all (\<lambda>dir. row dir \<noteq> - row d \<or> col dir \<noteq> - col d) (filterDirections d)"
proof -
  from assms(2) testAZ_turn have "c \<noteq> CHANGE_DIRECTION_CHAR" by auto
  with assms show ?thesis
    by (auto simp: findNextPosition_eq list_all_iff dest: filterDirections_not_opposite)
qed

text \<open>A letter at the edge turns towards the end marker below it; the same letter with a
  blank cell ahead of it does not.\<close>

theorem letter_turn_off_grid_witness:
  "cellAt letterTurnMap \<lparr>row = 0, col = 1\<rparr> = Some ''A'' \<and> testAZ ''A'' \<and>
   \<not> isWithinBounds letterTurnMap (move \<lparr>row = 0, col = 1\<rparr> \<lparr>row = 0, col = 1\<rparr>) \<and>
   findNextPosition letterTurnMap \<lparr>row = 0, col = 1\<rparr> \<lparr>row = 0, col = 1\<rparr> =
     Inr (Some (\<lparr>row = 1, col = 1\<rparr>, \<lparr>row = 1, col = 0\<rparr>)) \<and>
   cellAt blockedLetterMap \<lparr>row = 0, col = 1\<rparr> = Some ''A'' \<and>
   isWithinBounds blockedLetterMap (move \<lparr>row = 0, col = 1\<rparr> \<lparr>row = 0, col = 1\<rparr>) \<and>
   findNextPosition blockedLetterMap \<lparr>row = 0, col = 1\<rparr> \<lparr>row = 0, col = 1\<rparr> = Inr None"
proof -
  have a: "cellAt letterTurnMap \<lparr>row = 0, col = 1\<rparr> = Some ''A''" by code_simp
  have b: "testAZ ''A''" by code_simp
  have c: "\<not> isWithinBounds letterTurnMap (move \<lparr>row = 0, col = 1\<rparr> \<lparr>row = 0, col = 1\<rparr>)"
    by code_simp
  have d: "(case filter (\<lambda>dir. walkableAt letterTurnMap (move \<lparr>row = 0, col = 1\<rparr> dir))
                 (filterDirections \<lparr>row = 0, col = 1\<rparr>) of
              [] \<Rightarrow> None | dir # _ \<Rightarrow> Some (move \<lparr>row = 0, col = 1\<rparr> dir, dir)) =
           Some (\<lparr>row = 1, col = 1\<rparr>, \<lparr>row = 1, col = 0\<rparr>)" by code_simp
  have a': "cellAt blockedLetterMap \<lparr>row = 0, col = 1\<rparr> = Some ''A''" by code_simp
  have c': "isWithinBounds blockedLetterMap (move \<lparr>row = 0, col = 1\<rparr> \<lparr>row = 0, col = 1\<rparr>)"
    by code_simp
  have d': "\<not> walkableAt blockedLetterMap (move \<lparr>row = 0, col = 1\<rparr> \<lparr>row = 0, col = 1\<rparr>)"
    by code_simp
  from letter_turn_off_grid [OF a b, of "\<lparr>row = 0, col = 1\<rparr>"] letter_turn_off_grid [OF a' b, of "\<lparr>row = 0, col = 1\<rparr>"]
    a b c d a' c' d'
  show ?thesis by simp
qed

text \<open>
  Counterexample to C3 as the spec states it, which lets a letter turn also when the cell
  ahead is inside the grid but not walkable. In \<open>blockedLetterMap\<close> the walker stands on \<^verbatim>\<open>A\<close> heading
  right, the cell ahead is a blank inside the grid, and the cell below is the end marker,
  inside the grid and walkable; \<^verbatim>\<open>findNextPosition\<close> returns \<^verbatim>\<open>null\<close> and the walk
  fails.
\<close>

theorem blocked_letter_no_turn:
  "cellAt blockedLetterMap \<lparr>row = 0, col = 1\<rparr> = Some ''A'' \<and> testAZ ''A'' \<and>
   isWithinBounds blockedLetterMap (move \<lparr>row = 0, col = 1\<rparr> \<lparr>row = 0, col = 1\<rparr>) \<and>
   \<not> walkableAt blockedLetterMap (move \<lparr>row = 0, col = 1\<rparr> \<lparr>row = 0, col = 1\<rparr>) \<and>
   \<lparr>row = 1, col = 0\<rparr> \<in> set (filterDirections \<lparr>row = 0, col = 1\<rparr>) \<and>
   walkableAt blockedLetterMap (move \<lparr>row = 0, col = 1\<rparr> \<lparr>row = 1, col = 0\<rparr>) \<and>
   findNextPosition blockedLetterMap \<lparr>row = 0, col = 1\<rparr> \<lparr>row = 0, col = 1\<rparr> = Inr None \<and>
   collectLettersAndPath blockedLetterMap = Some (Inl (Error ''Path is broken or invalid.''))"
  by code_simp

text \<open>
  Claim C4. The walker stands on a turn cell \<^verbatim>\<open>+\<close> in some iteration of the loop. If
  more than one of the directions perpendicular to the current one leads to a walkable cell
  inside the grid, \<^verbatim>\<open>haveOneValidDirection\<close> throws
  \<^verbatim>\<open>The map must have only one valid direction.\<close>, and that is the error of the whole
  walk. If none does, \<^verbatim>\<open>haveOneValidDirection\<close> returns \<^verbatim>\<open>true\<close>,
  \<^verbatim>\<open>findNextPosition\<close> returns \<^verbatim>\<open>null\<close>, and the walker throws
  \<^verbatim>\<open>Path is broken or invalid.\<close>
\<close>

theorem turn_fork_or_dead_end:
  assumes "startWalk g = Inr (e, w0)" and "iterateLoop n g e w0 = Next w"
    and "cellAt g (currentPosition w) = Some CHANGE_DIRECTION_CHAR"
  shows "(1 < length (filter (\<lambda>dir. walkableAt g (move (currentPosition w) dir))
                        (filterDirections (direction w))) \<longrightarrow>
            haveOneValidDirection g (currentPosition w) (direction w) =
              Inl (Error ''The map must have only one valid direction.'') \<and>
            findNextPosition g (currentPosition w) (direction w) =
              Inl (Error ''The map must have only one valid direction.'') \<and>
            collectLettersAndPath g =
              Some (Inl (Error ''The map must have only one valid direction.''))) \<and>
         (filter (\<lambda>dir. walkableAt g (move (currentPosition w) dir))
                 (filterDirections (direction w)) = [] \<longrightarrow>
            haveOneValidDirection g (currentPosition w) (direction w) = Inr True \<and>
            findNextPosition g (currentPosition w) (direction w) = Inr None \<and>
            collectLettersAndPath g = Some (Inl (Error ''Path is broken or invalid.'')))"
proof -
  let ?valid = "filter (\<lambda>dir. walkableAt g (move (currentPosition w) dir))
                  (filterDirections (direction w))"
  have ne: "currentPosition w \<noteq> e" using turn_not_end [OF assms(1,3)] .
  have many: "haveOneValidDirection g (currentPosition w) (direction w) =
        Inl (Error ''The map must have only one valid direction.'') \<and>
      findNextPosition g (currentPosition w) (direction w) =
        Inl (Error ''The map must have only one valid direction.'') \<and>
      collectLettersAndPath g =
        Some (Inl (Error ''The map must have only one valid direction.''))"
    if "1 < length ?valid"
  proof -
    from that assms(3) have h: "haveOneValidDirection g (currentPosition w) (direction w) =
        Inl (Error ''The map must have only one valid direction.'')"
      by (simp add: haveOneValidDirection_eq)
    from that obtain a b cs where "?valid = a # b # cs"
      by (cases ?valid rule: list.exhaust; cases "tl ?valid") auto
    with assms(3) have f: "findNextPosition g (currentPosition w) (direction w) =
        Inl (Error ''The map must have only one valid direction.'')"
      by (simp add: findNextPosition_eq)
    with assms(3) ne have "loopBody g e w =
        Done (Inl (Error ''The map must have only one valid direction.''))"
      by (simp add: loopBody_eq Let_def)
    from collect_at_state [OF assms(1,2) this] h f show ?thesis by simp
  qed
  have none: "haveOneValidDirection g (currentPosition w) (direction w) = Inr True \<and>
      findNextPosition g (currentPosition w) (direction w) = Inr None \<and>
      collectLettersAndPath g = Some (Inl (Error ''Path is broken or invalid.''))"
    if "?valid = []"
  proof -
    from that assms(3) have h: "haveOneValidDirection g (currentPosition w) (direction w) = Inr True"
      by (simp add: haveOneValidDirection_eq)
    from that assms(3) have f: "findNextPosition g (currentPosition w) (direction w) = Inr None"
      by (simp add: findNextPosition_eq)
    with assms(3) ne have "loopBody g e w = Done (Inl (Error ''Path is broken or invalid.''))"
      by (simp add: loopBody_eq Let_def)
    from collect_at_state [OF assms(1,2) this] h f show ?thesis by simp
  qed
  from many none show ?thesis by blast
qed

text \<open>The fork of \<^verbatim>\<open>forkInPathMap\<close> and the turn of \<^verbatim>\<open>fakeTurnMap\<close>.\<close>

theorem turn_fork_or_dead_end_witness:
  "cellAt forkInPathMap \<lparr>row = 2, col = 8\<rparr> = Some CHANGE_DIRECTION_CHAR \<and>
   length (filter (\<lambda>dir. walkableAt forkInPathMap (move \<lparr>row = 2, col = 8\<rparr> dir))
             (filterDirections \<lparr>row = 0, col = 1\<rparr>)) = 2 \<and>
   haveOneValidDirection forkInPathMap \<lparr>row = 2, col = 8\<rparr> \<lparr>row = 0, col = 1\<rparr> =
     Inl (Error ''The map must have only one valid direction.'') \<and>
   collectLettersAndPath forkInPathMap =
     Some (Inl (Error ''The map must have only one valid direction.'')) \<and>
   cellAt fakeTurnMap \<lparr>row = 0, col = 4\<rparr> = Some CHANGE_DIRECTION_CHAR \<and>
   filter (\<lambda>dir. walkableAt fakeTurnMap (move \<lparr>row = 0, col = 4\<rparr> dir))
     (filterDirections \<lparr>row = 0, col = 1\<rparr>) = [] \<and>
   haveOneValidDirection fakeTurnMap \<lparr>row = 0, col = 4\<rparr> \<lparr>row = 0, col = 1\<rparr> = Inr True \<and>
   findNextPosition fakeTurnMap \<lparr>row = 0, col = 4\<rparr> \<lparr>row = 0, col = 1\<rparr> = Inr None \<and>
   collectLettersAndPath fakeTurnMap = Some (Inl (Error ''Path is broken or invalid.''))"
proof -
  have a: "cellAt forkInPathMap \<lparr>row = 2, col = 8\<rparr> = Some CHANGE_DIRECTION_CHAR" by code_simp
  have b: "length (filter (\<lambda>dir. walkableAt forkInPathMap (move \<lparr>row = 2, col = 8\<rparr> dir))
             (filterDirections \<lparr>row = 0, col = 1\<rparr>)) = 2" by code_simp
  have c: "cellAt fakeTurnMap \<lparr>row = 0, col = 4\<rparr> = Some CHANGE_DIRECTION_CHAR" by code_simp
  have d: "filter (\<lambda>dir. walkableAt fakeTurnMap (move \<lparr>row = 0, col = 4\<rparr> dir))
     (filterDirections \<lparr>row = 0, col = 1\<rparr>) = []" by code_simp
  from turn_fork_or_dead_end [OF startWalk_forkInPathMap iterateLoop_forkInPathMap] a b
    turn_fork_or_dead_end [OF startWalk_fakeTurnMap iterateLoop_fakeTurnMap] c d
  show ?thesis by simp
qed

text \<open>
  Claim C5. A step taken from a turn cell \<^verbatim>\<open>+\<close> is in a direction perpendicular to the
  current one, never straight on; and on the single-row grid \<^verbatim>\<open>fakeTurnMap\<close>, whose
  turn has no walkable neighbour above or below,
  \<^verbatim>\<open>collectLettersAndPath\<close> throws \<^verbatim>\<open>Path is broken or invalid.\<close>
\<close>

theorem turn_never_straight:
  "(\<forall>g p d p' d'. cellAt g p = Some CHANGE_DIRECTION_CHAR \<longrightarrow>
      findNextPosition g p d = Inr (Some (p', d')) \<longrightarrow>
      d' \<in> set (filterDirections d) \<and> d' \<noteq> d \<and> p' = move p d') \<and>
   collectLettersAndPath fakeTurnMap = Some (Inl (Error ''Path is broken or invalid.''))"
proof -
  have "d' \<in> set (filterDirections d) \<and> d' \<noteq> d \<and> p' = move p d'"
    if c: "cellAt g p = Some CHANGE_DIRECTION_CHAR"
      and f: "findNextPosition g p d = Inr (Some (p', d'))" for g p d p' d'
  proof -
    let ?valid = "filter (\<lambda>dir. walkableAt g (move p dir)) (filterDirections d)"
    from c f have "?valid = [d']"
      by (auto simp: findNextPosition_eq split: list.splits)
    then have "d' \<in> set ?valid" by simp
    then have "d' \<in> set (filterDirections d)" by simp
    with filterDirections_not_same [of d' d] findNextPosition_Some(1) [OF f] show ?thesis by simp
  qed
  moreover have "collectLettersAndPath fakeTurnMap = Some (Inl (Error ''Path is broken or invalid.''))"
    by code_simp
  ultimately show ?thesis by blast
qed

text \<open>The turn of \<open>smallMap\<close>, reached heading right, is left downwards.\<close>

theorem turn_never_straight_witness:
  "cellAt smallMap \<lparr>row = 0, col = 4\<rparr> = Some CHANGE_DIRECTION_CHAR \<and>
   findNextPosition smallMap \<lparr>row = 0, col = 4\<rparr> \<lparr>row = 0, col = 1\<rparr> =
     Inr (Some (\<lparr>row = 1, col = 4\<rparr>, \<lparr>row = 1, col = 0\<rparr>)) \<and>
   \<lparr>row = 1, col = 0\<rparr> \<in> set (filterDirections \<lparr>row = 0, col = 1\<rparr>) \<and>
   \<lparr>row = 1, col = 0\<rparr> \<noteq> \<lparr>row = 0, col = (1::int)\<rparr> \<and>
   collectLettersAndPath fakeTurnMap = Some (Inl (Error ''Path is broken or invalid.''))"
proof -
  have a: "cellAt smallMap \<lparr>row = 0, col = 4\<rparr> = Some CHANGE_DIRECTION_CHAR" by code_simp
  have b: "findNextPosition smallMap \<lparr>row = 0, col = 4\<rparr> \<lparr>row = 0, col = 1\<rparr> =
     Inr (Some (\<lparr>row = 1, col = 4\<rparr>, \<lparr>row = 1, col = 0\<rparr>))" by code_simp
  from turn_never_straight a b show ?thesis by blast
qed

text \<open>
  Claim C6. With the markers accepted, \<^verbatim>\<open>findInitialDirection\<close> looks at all four
  directions from the start cell; a direction is a candidate when the adjacent cell is
  inside the grid and walkable. If the number of candidates is not one, the walk fails with
  \<^verbatim>\<open>The map must contain exactly one starting path.\<close>; if it is one, that candidate is
  the initial direction.
\<close>

theorem initial_direction_candidates:
  assumes "findPosition g STARTING_CHAR = Some s" and "findPosition g ENDING_CHAR = Some e"
    and "\<not> hasMultipleOccurrences g STARTING_CHAR"
  shows "(length (filter (\<lambda>dir. isWithinBounds g (move s dir) \<and> walkableAt g (move s dir))
                   DIRECTIONS) \<noteq> 1 \<longrightarrow>
            findInitialDirection g s =
              Inl (Error ''The map must contain exactly one starting path.'') \<and>
            collectLettersAndPath g =
              Some (Inl (Error ''The map must contain exactly one starting path.''))) \<and>
         (length (filter (\<lambda>dir. isWithinBounds g (move s dir) \<and> walkableAt g (move s dir))
                   DIRECTIONS) = 1 \<longrightarrow>
            findInitialDirection g s =
              Inr (Some (hd (filter (\<lambda>dir. isWithinBounds g (move s dir) \<and>
                                            walkableAt g (move s dir)) DIRECTIONS))))"
proof -
  have eq: "(\<lambda>dir. isWithinBounds g (move s dir) \<and> walkableAt g (move s dir)) =
      (\<lambda>dir. walkableAt g (move s dir))"
    using walkableAt_bounds by auto
  have "startWalk g = Inl err" if "findInitialDirection g s = Inl err" for err
    using assms that by (simp add: startWalk_def)
  then show ?thesis
    unfolding eq by (auto simp: findInitialDirection_eq Let_def dest!: collect_reject)
qed

text \<open>Two candidates on \<^verbatim>\<open>mapWithMultipleStartingPaths\<close>, one on \<open>smallMap\<close>.\<close>

theorem initial_direction_candidates_witness:
  "findPosition mapWithMultipleStartingPaths STARTING_CHAR = Some \<lparr>row = 0, col = 4\<rparr> \<and>
   findPosition mapWithMultipleStartingPaths ENDING_CHAR = Some \<lparr>row = 0, col = 0\<rparr> \<and>
   \<not> hasMultipleOccurrences mapWithMultipleStartingPaths STARTING_CHAR \<and>
   length (filter (\<lambda>dir. isWithinBounds mapWithMultipleStartingPaths (move \<lparr>row = 0, col = 4\<rparr> dir) \<and>
                          walkableAt mapWithMultipleStartingPaths (move \<lparr>row = 0, col = 4\<rparr> dir))
             DIRECTIONS) = 2 \<and>
   collectLettersAndPath mapWithMultipleStartingPaths =
     Some (Inl (Error ''The map must contain exactly one starting path.'')) \<and>
   findPosition smallMap STARTING_CHAR = Some \<lparr>row = 0, col = 0\<rparr> \<and>
   findPosition smallMap ENDING_CHAR = Some \<lparr>row = 1, col = 4\<rparr> \<and>
   \<not> hasMultipleOccurrences smallMap STARTING_CHAR \<and>
   filter (\<lambda>dir. isWithinBounds smallMap (move \<lparr>row = 0, col = 0\<rparr> dir) \<and>
                  walkableAt smallMap (move \<lparr>row = 0, col = 0\<rparr> dir)) DIRECTIONS =
     [\<lparr>row = 0, col = 1\<rparr>] \<and>
   findInitialDirection smallMap \<lparr>row = 0, col = 0\<rparr> = Inr (Some \<lparr>row = 0, col = 1\<rparr>)"
proof -
  have a: "findPosition mapWithMultipleStartingPaths STARTING_CHAR = Some \<lparr>row = 0, col = 4\<rparr>"
    by code_simp
  have b: "findPosition mapWithMultipleStartingPaths ENDING_CHAR = Some \<lparr>row = 0, col = 0\<rparr>"
    by code_simp
  have c: "\<not> hasMultipleOccurrences mapWithMultipleStartingPaths STARTING_CHAR" by code_simp
  have d: "length (filter (\<lambda>dir. isWithinBounds mapWithMultipleStartingPaths (move \<lparr>row = 0, col = 4\<rparr> dir) \<and>
                          walkableAt mapWithMultipleStartingPaths (move \<lparr>row = 0, col = 4\<rparr> dir))
             DIRECTIONS) = 2" by code_simp
  have a': "findPosition smallMap STARTING_CHAR = Some \<lparr>row = 0, col = 0\<rparr>" by code_simp
  have b': "findPosition smallMap ENDING_CHAR = Some \<lparr>row = 1, col = 4\<rparr>" by code_simp
  have c': "\<not> hasMultipleOccurrences smallMap STARTING_CHAR" by code_simp
  have d': "filter (\<lambda>dir. isWithinBounds smallMap (move \<lparr>row = 0, col = 0\<rparr> dir) \<and>
                  walkableAt smallMap (move \<lparr>row = 0, col = 0\<rparr> dir)) DIRECTIONS =
     [\<lparr>row = 0, col = 1\<rparr>]" by code_simp
  from initial_direction_candidates [OF a b c] initial_direction_candidates [OF a' b' c'] a b c d a' b' c' d' show ?thesis by simp
qed

text \<open>
  Claim C7. On a successful walk, let \<open>visited\<close> be the positions the walker stood on, in
  order. The returned path is the start marker followed by the cell of every visit; the
  returned letters are the cells of the visited letter positions, each position once, in
  the order of first visit (the positions are compared, not the letters). On a grid whose
  cells hold at most one character, that is one character of the path for every visit and
  one character of the letters for every distinct letter position.
\<close>

theorem letters_once_per_position:
  assumes "collectLettersAndPath g = Some (Inr r)"
  shows "\<exists>e w0 n. startWalk g = Inr (e, w0) \<and> iterateLoop n g e w0 = Done (Inr r) \<and>
           (let visited = positions n g e w0;
                collected = firstVisits (filter (letterAt g) visited)
            in path r = concat (STARTING_CHAR # map (charAt g) visited) \<and>
               letters r = concat (map (charAt g) collected) \<and>
               (singleCharCells g \<longrightarrow>
                  length (path r) = Suc (length visited) \<and>
                  length (letters r) = length collected))"
proof -
  from assms obtain e w0 n where s: "startWalk g = Inr (e, w0)"
    and it: "iterateLoop n g e w0 = Done (Inr r)"
    by (auto simp: collect_success)
  note i = startWalk_Inr [OF s]
  let ?vis = "positions n g e w0"
  let ?col = "firstVisits (filter (letterAt g) ?vis)"
  from walk_trace [OF it, of "[]"] i(4,5,6)
  have eq: "path r = concat (STARTING_CHAR # map (charAt g) ?vis)"
    "letters r = concat (map (charAt g) ?col)"
    by (simp_all add: firstVisits_def)
  have len: "length (path r) = Suc (length ?vis) \<and> length (letters r) = length ?col"
    if sc: "singleCharCells g"
  proof -
    have v: "length (charAt g p) = 1" if "p \<in> set ?vis" for p
      using walkable_single_char [OF sc positions_walkable [OF i(2) that]] .
    then have c: "length (charAt g p) = 1" if "p \<in> set ?col" for p
      using that by (simp add: set_firstVisits)
    from length_concat_single [of ?vis "charAt g", OF v]
      length_concat_single [of ?col "charAt g", OF c] eq
    show ?thesis by (simp add: STARTING_CHAR_def)
  qed
  from s it eq len show ?thesis unfolding Let_def by blast
qed

text \<open>The fixture that crosses two of its letter cells twice: 38 visits, 7 letters.\<close>

theorem letters_once_per_position_witness:
  "collectLettersAndPath goonies =
     Some (Inr \<lparr>letters = ''GOONIES'', path = ''@-G-O-+|+-+|O||+-O-N-+|I|+-+|+-I-+|ES|x''\<rparr>) \<and>
   singleCharCells goonies \<and>
   (\<exists>e w0 n. startWalk goonies = Inr (e, w0) \<and>
      iterateLoop n goonies e w0 =
        Done (Inr \<lparr>letters = ''GOONIES'', path = ''@-G-O-+|+-+|O||+-O-N-+|I|+-+|+-I-+|ES|x''\<rparr>) \<and>
      ''@-G-O-+|+-+|O||+-O-N-+|I|+-+|+-I-+|ES|x'' =
        concat (STARTING_CHAR # map (charAt goonies) (positions n goonies e w0)) \<and>
      ''GOONIES'' =
        concat (map (charAt goonies)
                  (firstVisits (filter (letterAt goonies) (positions n goonies e w0)))) \<and>
      length (positions n goonies e w0) = 38 \<and>
      length (firstVisits (filter (letterAt goonies) (positions n goonies e w0))) = 7)"
proof -
  have s: "singleCharCells goonies" by code_simp
  let ?r = "\<lparr>letters = ''GOONIES'', path = ''@-G-O-+|+-+|O||+-O-N-+|I|+-+|+-I-+|ES|x''\<rparr>"
  from letters_once_per_position [OF collect_goonies] obtain e w0 n
    where a: "startWalk goonies = Inr (e, w0)"
      and b: "iterateLoop n goonies e w0 = Done (Inr ?r)"
      and c: "path ?r = concat (STARTING_CHAR # map (charAt goonies) (positions n goonies e w0))"
      and d: "letters ?r = concat (map (charAt goonies)
                (firstVisits (filter (letterAt goonies) (positions n goonies e w0))))"
      and l: "singleCharCells goonies \<longrightarrow>
                length (path ?r) = Suc (length (positions n goonies e w0)) \<and>
                length (letters ?r) =
                  length (firstVisits (filter (letterAt goonies) (positions n goonies e w0)))"
    unfolding Let_def by blast
  have lp: "length (path ?r) = 39" "length (letters ?r) = 7" by simp_all
  from l s have e1: "length (path ?r) = Suc (length (positions n goonies e w0))"
    and e2: "length (letters ?r) =
      length (firstVisits (filter (letterAt goonies) (positions n goonies e w0)))"
    by blast+
  have "length (positions n goonies e w0) = 38" using e1 unfolding lp(1) by arith
  moreover have "length (firstVisits (filter (letterAt goonies) (positions n goonies e w0))) = 7"
    using e2 unfolding lp(2) by arith
  ultimately have "\<exists>e w0 n. startWalk goonies = Inr (e, w0) \<and>
      iterateLoop n goonies e w0 = Done (Inr ?r) \<and>
      ''@-G-O-+|+-+|O||+-O-N-+|I|+-+|+-I-+|ES|x'' =
        concat (STARTING_CHAR # map (charAt goonies) (positions n goonies e w0)) \<and>
      ''GOONIES'' =
        concat (map (charAt goonies)
                  (firstVisits (filter (letterAt goonies) (positions n goonies e w0)))) \<and>
      length (positions n goonies e w0) = 38 \<and>
      length (firstVisits (filter (letterAt goonies) (positions n goonies e w0))) = 7"
    using a b c d by (intro exI [of _ e] exI [of _ w0] exI [of _ n]) simp
  with s collect_goonies show ?thesis by blast
qed

text \<open>
  Claim C8. In every iteration of the loop that goes on to a next one, the new direction
  is the current direction or one perpendicular to it, and never its reverse; the
  directions of the walk are among the four of \<^verbatim>\<open>DIRECTIONS\<close>. The first state of the
  loop carries the initial direction, so this covers every pair of consecutive steps of a
  walk, successful or not.
\<close>

theorem no_reversal:
  assumes "startWalk g = Inr (e, w0)" and "iterateLoop n g e w0 = Next w"
    and "loopBody g e w = Next w'"
  shows "direction w \<in> set DIRECTIONS \<and> direction w' \<in> set DIRECTIONS \<and>
         (direction w' = direction w \<or> direction w' \<in> set (filterDirections (direction w))) \<and>
         \<not> (row (direction w') = - row (direction w) \<and>
            col (direction w') = - col (direction w))"
proof -
  have d: "direction w \<in> set DIRECTIONS" using reachable_invariant(2) [OF assms(1,2)] .
  have d': "direction w' = direction w \<or> direction w' \<in> set (filterDirections (direction w))"
    using loopBody_Next(3) [OF assms(3)] .
  with d have "direction w' \<in> set DIRECTIONS" using filterDirections_subset by auto
  moreover from d' d
  have "\<not> (row (direction w') = - row (direction w) \<and> col (direction w') = - col (direction w))"
    using DIRECTIONS_not_opposite [of "direction w"]
      filterDirections_not_opposite [of "direction w'" "direction w"]
    by auto
  ultimately show ?thesis using d d' by blast
qed

text \<open>The turn of \<open>smallMap\<close>: from heading right to heading down.\<close>

theorem no_reversal_witness:
  "startWalk smallMap = Inr (\<lparr>row = 1, col = 4\<rparr>,
     \<lparr>currentPosition = \<lparr>row = 0, col = 1\<rparr>, direction = \<lparr>row = 0, col = 1\<rparr>,
      pathArr = [''@''], lettersArr = [], location = []\<rparr>) \<and>
   iterateLoop 3 smallMap \<lparr>row = 1, col = 4\<rparr>
     \<lparr>currentPosition = \<lparr>row = 0, col = 1\<rparr>, direction = \<lparr>row = 0, col = 1\<rparr>,
      pathArr = [''@''], lettersArr = [], location = []\<rparr> =
   Next \<lparr>currentPosition = \<lparr>row = 0, col = 4\<rparr>, direction = \<lparr>row = 0, col = 1\<rparr>,
         pathArr = [''@'', ''-'', ''A'', ''-''], lettersArr = [''A''],
         location = [\<lparr>row = 0, col = 2\<rparr>]\<rparr> \<and>
   loopBody smallMap \<lparr>row = 1, col = 4\<rparr>
     \<lparr>currentPosition = \<lparr>row = 0, col = 4\<rparr>, direction = \<lparr>row = 0, col = 1\<rparr>,
      pathArr = [''@'', ''-'', ''A'', ''-''], lettersArr = [''A''],
      location = [\<lparr>row = 0, col = 2\<rparr>]\<rparr> =
   Next \<lparr>currentPosition = \<lparr>row = 1, col = 4\<rparr>, direction = \<lparr>row = 1, col = 0\<rparr>,
         pathArr = [''@'', ''-'', ''A'', ''-'', ''+''], lettersArr = [''A''],
         location = [\<lparr>row = 0, col = 2\<rparr>]\<rparr> \<and>
   \<lparr>row = 1, col = 0\<rparr> \<in> set (filterDirections \<lparr>row = 0, col = 1\<rparr>) \<and>
   \<not> ((1::int) = - 0 \<and> (0::int) = - 1)"
  using no_reversal [OF startWalk_smallMap iterateLoop_smallMap loopBody_smallMap]
    startWalk_smallMap iterateLoop_smallMap loopBody_smallMap
  by simp

text \<open>
  Claim C9. The path returned by a successful walk is not empty, begins with the start
  marker \<^verbatim>\<open>@\<close> and ends with the end marker \<^verbatim>\<open>x\<close>.
\<close>

theorem path_starts_and_ends:
  assumes "collectLettersAndPath g = Some (Inr r)"
  shows "path r \<noteq> [] \<and> hd (path r) = CHR ''@'' \<and> last (path r) = CHR ''x''"
proof -
  from assms obtain e w0 n where s: "startWalk g = Inr (e, w0)"
    and it: "iterateLoop n g e w0 = Done (Inr r)"
    by (auto simp: collect_success)
  from path_ends [OF it startWalk_Inr(1) [OF s] startWalk_Inr(4) [OF s]] show ?thesis .
qed

text \<open>The path of the fixture \<open>goonies\<close>.\<close>

theorem path_starts_and_ends_witness:
  "collectLettersAndPath goonies =
     Some (Inr \<lparr>letters = ''GOONIES'', path = ''@-G-O-+|+-+|O||+-O-N-+|I|+-+|+-I-+|ES|x''\<rparr>) \<and>
   hd ''@-G-O-+|+-+|O||+-O-N-+|I|+-+|+-I-+|ES|x'' = CHR ''@'' \<and>
   last ''@-G-O-+|+-+|O||+-O-N-+|I|+-+|+-I-+|ES|x'' = CHR ''x''"
  using path_starts_and_ends [OF collect_goonies] collect_goonies by simp

text \<open>
  Claim C10. No read of a grid cell is outside the grid: the part in front of the loop never
  ends in \<open>AbsentCell\<close>, nor does the walk as a whole; and in every iteration of the
  loop the walker's position is inside the grid, and neither the loop body nor
  \<^verbatim>\<open>findNextPosition\<close> nor \<^verbatim>\<open>haveOneValidDirection\<close>, called at that position, reads an
  absent cell.
\<close>

theorem reads_within_bounds:
  "startWalk g \<noteq> Inl AbsentCell \<and>
   collectLettersAndPath g \<noteq> Some (Inl AbsentCell) \<and>
   (\<forall>e w0 n w. startWalk g = Inr (e, w0) \<longrightarrow> iterateLoop n g e w0 = Next w \<longrightarrow>
      isWithinBounds g (currentPosition w) \<and>
      loopBody g e w \<noteq> Done (Inl AbsentCell) \<and>
      findNextPosition g (currentPosition w) (direction w) \<noteq> Inl AbsentCell \<and>
      haveOneValidDirection g (currentPosition w) (direction w) \<noteq> Inl AbsentCell)"
proof -
  have 1: "startWalk g \<noteq> Inl AbsentCell" by (rule startWalk_not_absent)
  have 2: "isWithinBounds g (currentPosition w) \<and>
      loopBody g e w \<noteq> Done (Inl AbsentCell) \<and>
      findNextPosition g (currentPosition w) (direction w) \<noteq> Inl AbsentCell \<and>
      haveOneValidDirection g (currentPosition w) (direction w) \<noteq> Inl AbsentCell"
    if "startWalk g = Inr (e, w0)" "iterateLoop n g e w0 = Next w" for e w0 n w
  proof -
    have "isWithinBounds g (currentPosition w)"
      using reachable_invariant(1) [OF that] by (rule walkableAt_bounds)
    then show ?thesis
      using loopBody_not_absent findNextPosition_not_absent haveOneValidDirection_not_absent
      by blast
  qed
  have 3: "collectLettersAndPath g \<noteq> Some (Inl AbsentCell)"
  proof
    assume a: "collectLettersAndPath g = Some (Inl AbsentCell)"
    with startWalk_not_absent [of g] obtain e w0 where s: "startWalk g = Inr (e, w0)"
      and "walk g e w0 = Some (Inl AbsentCell)"
      by (auto simp: collectLettersAndPath_def split: sum.splits)
    then obtain n where n: "iterateLoop n g e w0 = Done (Inl AbsentCell)"
      using walk_Some_iterateLoop by blast
    with iterate_not_absent [OF startWalk_Inr(2) [OF s]] show False by blast
  qed
  from 1 2 3 show ?thesis by blast
qed

text \<open>The fourth iteration on \<open>smallMap\<close>.\<close>

theorem reads_within_bounds_witness:
  "startWalk smallMap = Inr (\<lparr>row = 1, col = 4\<rparr>,
     \<lparr>currentPosition = \<lparr>row = 0, col = 1\<rparr>, direction = \<lparr>row = 0, col = 1\<rparr>,
      pathArr = [''@''], lettersArr = [], location = []\<rparr>) \<and>
   iterateLoop 3 smallMap \<lparr>row = 1, col = 4\<rparr>
     \<lparr>currentPosition = \<lparr>row = 0, col = 1\<rparr>, direction = \<lparr>row = 0, col = 1\<rparr>,
      pathArr = [''@''], lettersArr = [], location = []\<rparr> =
   Next \<lparr>currentPosition = \<lparr>row = 0, col = 4\<rparr>, direction = \<lparr>row = 0, col = 1\<rparr>,
         pathArr = [''@'', ''-'', ''A'', ''-''], lettersArr = [''A''],
         location = [\<lparr>row = 0, col = 2\<rparr>]\<rparr> \<and>
   isWithinBounds smallMap \<lparr>row = 0, col = 4\<rparr> \<and>
   findNextPosition smallMap \<lparr>row = 0, col = 4\<rparr> \<lparr>row = 0, col = 1\<rparr> \<noteq> Inl AbsentCell \<and>
   haveOneValidDirection smallMap \<lparr>row = 0, col = 4\<rparr> \<lparr>row = 0, col = 1\<rparr> \<noteq> Inl AbsentCell \<and>
   collectLettersAndPath smallMap \<noteq> Some (Inl AbsentCell)"
  using reads_within_bounds [of smallMap] startWalk_smallMap iterateLoop_smallMap
  by (metis walker.select_convs(1,2))

end
